theory Spec2Isabelle
  imports Main "HOL-Library.AList" "HOL-Library.Sublist"
begin

section \<open>pyani: the anib and plot subcommands\<close>

text \<open>
  A shallow embedding of \<^verbatim>\<open>pyani/scripts/subcommands/subcmd_anib.py\<close> and
  \<^verbatim>\<open>pyani/scripts/subcommands/subcmd_plot.py\<close>. Python integers are \<open>int\<close>
  (or \<open>nat\<close> where the code only counts up from zero), strings are \<open>string\<close>,
  a dict is an association list in insertion order, an exception is a value of
  type \<open>exn\<close>, and a loop that may run forever returns \<open>None\<close>.
\<close>

subsection \<open>Python values used by the fragmenter\<close>

text \<open>
  A Biopython \<^verbatim>\<open>SeqRecord\<close>: its identifier, its description line and its letters.
  \<^verbatim>\<open>len(seq)\<close> is the number of letters.
\<close>

record SeqRecord =
  id_r :: string
  description_r :: string
  seq_r :: string

text \<open>
  Python's slice \<^verbatim>\<open>xs[i:j]\<close> (step 1): a negative bound counts from the end, and
  both bounds are clamped into \<open>0..len(xs)\<close>; an empty range gives the empty list
  (the subtraction on \<open>nat\<close> below stops at zero).
\<close>

definition slice_index :: "int \<Rightarrow> int \<Rightarrow> nat" where
  "slice_index n i = nat (if i < 0 then max 0 (i + n) else min i n)"

definition py_slice :: "'a list \<Rightarrow> int \<Rightarrow> int \<Rightarrow> 'a list" where
  "py_slice xs i j =
     (let n = int (length xs); lo = slice_index n i; hi = slice_index n j
      in take (hi - lo) (drop lo xs))"

text \<open>Slicing a \<^verbatim>\<open>SeqRecord\<close> slices its letters and keeps id and description.\<close>

definition slice_record :: "SeqRecord \<Rightarrow> int \<Rightarrow> int \<Rightarrow> SeqRecord" where
  "slice_record s i j = s\<lparr>seq_r := py_slice (seq_r s) i j\<rparr>"

text \<open>
  The format \<^verbatim>\<open>f"frag{count:05d}"\<close> for a count that is never negative: the decimal
  digits of the count, padded on the left with zeros up to five characters. A count
  with more than five digits is printed in full.
\<close>

definition digit_char :: "nat \<Rightarrow> char" where
  "digit_char d = ''0123456789'' ! d"

fun str_nat :: "nat \<Rightarrow> string" where
  "str_nat n = (if n < 10 then [digit_char n] else str_nat (n div 10) @ [digit_char (n mod 10)])"

declare str_nat.simps [simp del]

definition format_05d :: "nat \<Rightarrow> string" where
  "format_05d n = (let s = str_nat n in replicate (5 - length s) (CHR ''0'') @ s)"

definition frag_id :: "nat \<Rightarrow> string" where
  "frag_id count = ''frag'' @ format_05d count"

subsection \<open>fragment_fasta_file: the two loops\<close>

text \<open>
  The state of the loops of \<^verbatim>\<open>fragment_fasta_file\<close> is \<open>(count, outseqs, sizedict)\<close>.
  \<^verbatim>\<open>sizedict[newseq.id] = len(newseq)\<close> is \<open>AList.update\<close>: a new key goes to the end,
  an old key keeps its place and takes the new value, as in a Python dict.

  The \<^verbatim>\<open>while idx < len(seq)\<close> loop has no bound of its own when \<open>fragsize \<le> 0\<close>, so it
  is a partial function: \<open>None\<close> means that the loop does not return.
\<close>

type_synonym frag_state = "nat \<times> SeqRecord list \<times> (string \<times> nat) list"

partial_function (option) fragment_while ::
  "SeqRecord \<Rightarrow> int \<Rightarrow> int \<Rightarrow> nat \<Rightarrow> SeqRecord list \<Rightarrow> (string \<times> nat) list \<Rightarrow> frag_state option"
where
  "fragment_while seq fragsize idx count outseqs sizedict =
     (if idx < int (length (seq_r seq)) then
        fragment_while seq fragsize (idx + fragsize) (count + 1)
          (outseqs @ [(slice_record seq idx (idx + fragsize))\<lparr>id_r := frag_id (count + 1)\<rparr>])
          (AList.update (frag_id (count + 1))
             (length (seq_r (slice_record seq idx (idx + fragsize)))) sizedict)
      else Some (count, outseqs, sizedict))"

declare fragment_while.simps [code]

text \<open>The \<^verbatim>\<open>for seq in SeqIO.parse(...)\<close> loop, over the records the parser yields.\<close>

fun fragment_records :: "SeqRecord list \<Rightarrow> int \<Rightarrow> frag_state \<Rightarrow> frag_state option" where
  "fragment_records [] fragsize st = Some st"
| "fragment_records (seq # rest) fragsize (count, outseqs, sizedict) =
     (case fragment_while seq fragsize 0 count outseqs sizedict of
        None \<Rightarrow> None
      | Some st' \<Rightarrow> fragment_records rest fragsize st')"

subsection \<open>itertools.permutations\<close>

text \<open>
  \<^verbatim>\<open>permutations(iterable, 2)\<close>, as the Python documentation defines it: the index
  pairs of \<^verbatim>\<open>product(range(n), repeat=2)\<close> in order, those with a repeated index left
  out, each mapped to the elements of the pool at these positions.
\<close>

definition permutations2 :: "'a list \<Rightarrow> ('a \<times> 'a) list" where
  "permutations2 pool =
     map (\<lambda>(i, j). (pool ! i, pool ! j))
       (filter (\<lambda>(i, j). i \<noteq> j) (List.product [0..<length pool] [0..<length pool]))"

subsection \<open>Exceptions, effects and the collaborators of the subcommands\<close>

text \<open>
  The exceptions the two modules raise or catch. \<^verbatim>\<open>IOError\<close> is Python 3's alias of
  \<^verbatim>\<open>OSError\<close>. \<^verbatim>\<open>SystemExit\<close> and \<^verbatim>\<open>KeyboardInterrupt\<close> are the ones that
  \<^verbatim>\<open>except Exception\<close> does not catch.
\<close>

datatype exn =
    PyaniORMException
  | OSError
  | SystemExit int
  | SystemError int
  | NotImplementedError
  | UnboundLocalError
  | AttributeError
  | KeyError
  | ValueError
  | KeyboardInterrupt
  | OtherException string

fun is_Exception :: "exn \<Rightarrow> bool" where
  "is_Exception (SystemExit n) = False"
| "is_Exception KeyboardInterrupt = False"
| "is_Exception e = True"

text \<open>
  A call of a collaborator (the ORM, the file system, Biopython, the plotting
  back ends) is recorded as an event, with the arguments that matter here.
\<close>

datatype event =
    Ev_get_version string
  | Ev_now
  | Ev_get_session string
  | Ev_add_run string string string string
  | Ev_add_run_genomes string
  | Ev_genomes_all
  | Ev_makedirs string
  | Ev_parse string
  | Ev_write "SeqRecord list" string
  | Ev_print string nat
  | Ev_filter_existing_comparisons nat
  | Ev_update_comparison_matrices
  | Ev_collect_existing_output string
  | Ev_fragment_fasta_files "string list" string

text \<open>
  The state threaded through a run: the world outside the program (database and
  file system, left abstract) and the events so far. A computation returns
  \<open>None\<close> when it does not return, otherwise an exception or a value, and the state
  it leaves.
\<close>

record ('w, 'e) pstate =
  world :: 'w
  trace :: "'e list"

type_synonym ('a, 'w, 'e) io = "('w, 'e) pstate \<Rightarrow> ((exn + 'a) \<times> ('w, 'e) pstate) option"

definition return_io :: "'a \<Rightarrow> ('a, 'w, 'e) io" where
  "return_io x = (\<lambda>s. Some (Inr x, s))"

definition raise_io :: "exn \<Rightarrow> ('a, 'w, 'e) io" where
  "raise_io e = (\<lambda>s. Some (Inl e, s))"

definition bind_io :: "('a, 'w, 'e) io \<Rightarrow> ('a \<Rightarrow> ('b, 'w, 'e) io) \<Rightarrow> ('b, 'w, 'e) io" where
  "bind_io m f = (\<lambda>s. case m s of
       None \<Rightarrow> None
     | Some (Inl e, s') \<Rightarrow> Some (Inl e, s')
     | Some (Inr a, s') \<Rightarrow> f a s')"

text \<open>\<^verbatim>\<open>try: m  except ...: h e\<close>; a handler re-raises what its clause does not catch.\<close>

definition try_except :: "('a, 'w, 'e) io \<Rightarrow> (exn \<Rightarrow> ('a, 'w, 'e) io) \<Rightarrow> ('a, 'w, 'e) io" where
  "try_except m h = (\<lambda>s. case m s of
       None \<Rightarrow> None
     | Some (Inl e, s') \<Rightarrow> h e s'
     | Some (Inr a, s') \<Rightarrow> Some (Inr a, s'))"

text \<open>A collaborator acts on the world, and may change it also when it raises.\<close>

definition call :: "'e \<Rightarrow> ('w \<Rightarrow> (exn + 'a) \<times> 'w) \<Rightarrow> ('a, 'w, 'e) io" where
  "call ev op = (\<lambda>s. case op (world s) of
       (r, w') \<Rightarrow> Some (r, \<lparr>world = w', trace = trace s @ [ev]\<rparr>))"

text \<open>
  The command-line namespace: the attributes of \<^verbatim>\<open>args\<close> that the two subcommands
  read. \<^verbatim>\<open>args.name\<close> is \<^verbatim>\<open>None\<close> when no name was given.
\<close>

record Namespace =
  args_blastn_exe :: string
  args_name :: "string option"
  args_dbpath :: string
  args_cmdline :: string
  args_indir :: string
  args_classes :: string
  args_labels :: string
  args_outdir :: string
  args_fragsize :: int
  args_disable_tqdm :: bool
  args_recovery :: bool
  args_run_id :: string
  args_method :: string
  args_formats :: string

text \<open>
  The collaborators of \<^verbatim>\<open>subcmd_anib\<close>, none of which is defined in the two modules:
  \<^verbatim>\<open>pyani.anib\<close>, \<^verbatim>\<open>pyani.pyani_orm\<close>, \<^verbatim>\<open>pyani.pyani_files\<close>, \<^verbatim>\<open>os\<close>, \<^verbatim>\<open>pathlib\<close>,
  \<^verbatim>\<open>json\<close>, \<^verbatim>\<open>datetime\<close> and \<^verbatim>\<open>Bio.SeqIO\<close>. They are parameters of the model. A
  session is \<open>'s\<close>, a run \<open>'r\<close>, a genome row \<open>'g\<close>. \<^verbatim>\<open>SeqIO.parse\<close> is an iterator:
  it yields records and may then raise.
\<close>

record ('w, 's, 'r, 'g) anib_env =
  get_version :: "string \<Rightarrow> 'w \<Rightarrow> (exn + string) \<times> 'w"
  datetime_now_isoformat :: "'w \<Rightarrow> (exn + string) \<times> 'w"
  get_session :: "string \<Rightarrow> 'w \<Rightarrow> (exn + 's) \<times> 'w"
  add_run :: "'s \<Rightarrow> string \<Rightarrow> string \<Rightarrow> string \<Rightarrow> string \<Rightarrow> string \<Rightarrow> 'w \<Rightarrow> (exn + 'r) \<times> 'w"
  add_run_genomes :: "'s \<Rightarrow> 'r \<Rightarrow> string \<Rightarrow> string \<Rightarrow> string \<Rightarrow> 'w \<Rightarrow> (exn + int list) \<times> 'w"
  run_genomes_all :: "'r \<Rightarrow> 'w \<Rightarrow> (exn + 'g list) \<times> 'w"
  genome_path :: "'g \<Rightarrow> string"
  makedirs :: "string \<Rightarrow> 'w \<Rightarrow> (exn + unit) \<times> 'w"
  joinpath :: "string \<Rightarrow> string \<Rightarrow> string"
  stem :: "string \<Rightarrow> string"
  SeqIO_parse :: "string \<Rightarrow> 'w \<Rightarrow> SeqRecord list \<times> exn option"
  SeqIO_write :: "SeqRecord list \<Rightarrow> string \<Rightarrow> 'w \<Rightarrow> (exn + unit) \<times> 'w"
  json_dumps :: "(string \<times> nat) list \<Rightarrow> string"
  filter_existing_comparisons ::
    "'s \<Rightarrow> 'r \<Rightarrow> ('g \<times> 'g) list \<Rightarrow> string \<Rightarrow> string \<Rightarrow> int \<Rightarrow> 'w \<Rightarrow> (exn + ('g \<times> 'g) list) \<times> 'w"
  update_comparison_matrices :: "'s \<Rightarrow> 'r \<Rightarrow> 'w \<Rightarrow> (exn + unit) \<times> 'w"
  collect_existing_output :: "string \<Rightarrow> string \<Rightarrow> Namespace \<Rightarrow> 'w \<Rightarrow> (exn + string list) \<times> 'w"
  fragment_fasta_files ::
    "string list \<Rightarrow> string \<Rightarrow> int \<Rightarrow> 'w \<Rightarrow> (exn + string list \<times> string list) \<times> 'w"

subsection \<open>fragment_fasta_file\<close>

text \<open>
  Lines 275 to 291. The records are fragmented as the parser yields them; an
  exception of the parser surfaces after the records before it. The fragments are
  written to \<^verbatim>\<open>outdir / f"{inpath.stem}-fragments.fasta"\<close> itself, and the result is
  this path and the JSON text of \<^verbatim>\<open>sizedict\<close>.
\<close>

definition fragment_fasta_file ::
  "('w, 's, 'r, 'g) anib_env \<Rightarrow> string \<Rightarrow> string \<Rightarrow> int \<Rightarrow> (string \<times> string, 'w, event) io" where
  "fragment_fasta_file env inpath outdir fragsize =
     bind_io (call (Ev_parse inpath) (\<lambda>w. (Inr (SeqIO_parse env inpath w), w))) (\<lambda>(recs, err).
       (\<lambda>s. case fragment_records recs fragsize (0, [], []) of
          None \<Rightarrow> None
        | Some (count, outseqs, sizedict) \<Rightarrow>
            (case err of
               Some e \<Rightarrow> raise_io e
             | None \<Rightarrow>
                 (let fragpath = joinpath env outdir (stem env inpath @ ''-fragments.fasta'')
                  in bind_io (call (Ev_write outseqs fragpath) (SeqIO_write env outseqs fragpath))
                       (\<lambda>_. return_io (fragpath, json_dumps env sizedict)))) s))"

subsection \<open>subcmd_anib\<close>

text \<open>
  What the later stages of \<^verbatim>\<open>subcmd_anib\<close> keep from the first: the BLAST+ version,
  the session, the run, its genomes and the fragment directory.
\<close>

type_synonym ('s, 'r, 'g) anib_ctx = "string \<times> 's \<times> 'r \<times> 'g list \<times> string"

text \<open>
  Line 99, \<^verbatim>\<open>args.name or "_".join(["ANIb", start_time.isoformat()])\<close>, is
  \<open>run_name\<close>: a missing or empty name gives the default. Lines 91 to 159 are the
  setup: version, run name, session, run, genomes, output directories.
  Calls of the logger only write to the log and are left out, except line 138,
  whose message reads the local \<^verbatim>\<open>genome_ids\<close>: the handler of lines 134 to 137
  logs and falls through, so after a \<^verbatim>\<open>PyaniORMException\<close> the local is unbound
  (\<open>None\<close> below) and reading it raises \<^verbatim>\<open>UnboundLocalError\<close>.
\<close>

definition run_name :: "Namespace \<Rightarrow> string \<Rightarrow> string" where
  "run_name args start_time =
     (case args_name args of
        None \<Rightarrow> ''ANIb_'' @ start_time
      | Some n \<Rightarrow> if n = [] then ''ANIb_'' @ start_time else n)"

definition subcmd_anib_setup ::
  "('w, 's, 'r, 'g) anib_env \<Rightarrow> Namespace \<Rightarrow> (('s, 'r, 'g) anib_ctx, 'w, event) io" where
  "subcmd_anib_setup env args =
     bind_io (call (Ev_get_version (args_blastn_exe args))
                (get_version env (args_blastn_exe args))) (\<lambda>blastn_version.
     bind_io (call Ev_now (datetime_now_isoformat env)) (\<lambda>start_time.
     (let name = run_name args start_time in
     bind_io (try_except
                (call (Ev_get_session (args_dbpath args)) (get_session env (args_dbpath args)))
                (\<lambda>e. if is_Exception e then raise_io (SystemExit 1) else raise_io e))
       (\<lambda>session.
     bind_io (try_except
                (call (Ev_add_run ''ANIb'' (args_cmdline args) ''started'' name)
                   (add_run env session ''ANIb'' (args_cmdline args) start_time ''started'' name))
                (\<lambda>e. if e = PyaniORMException then raise_io (SystemExit 1) else raise_io e))
       (\<lambda>run.
     bind_io (try_except
                (bind_io
                   (call (Ev_add_run_genomes (args_indir args))
                      (add_run_genomes env session run (args_indir args) (args_classes args)
                         (args_labels args)))
                   (\<lambda>ids. return_io (Some ids)))
                (\<lambda>e. if e = PyaniORMException then return_io None else raise_io e))
       (\<lambda>genome_ids.
     bind_io (case genome_ids of
                None \<Rightarrow> raise_io UnboundLocalError
              | Some ids \<Rightarrow> return_io ())
       (\<lambda>_.
     bind_io (call Ev_genomes_all (run_genomes_all env run)) (\<lambda>genomes.
     bind_io (try_except
                (call (Ev_makedirs (args_outdir args)) (makedirs env (args_outdir args)))
                (\<lambda>e. if e = OSError then raise_io (SystemError 1) else raise_io e))
       (\<lambda>_.
     (let fragdir = joinpath env (args_outdir args) ''fragments'';
          blastdbdir = joinpath env (args_outdir args) ''blastdbs''
      in
     bind_io (call (Ev_makedirs fragdir) (makedirs env fragdir)) (\<lambda>_.
     bind_io (call (Ev_makedirs blastdbdir) (makedirs env blastdbdir)) (\<lambda>_.
     return_io (blastn_version, session, run, genomes, fragdir)))))))))))))"

text \<open>Lines 164 to 171: one fragment file for each genome, and a line on stdout.\<close>

fun fragment_genomes ::
  "('w, 's, 'r, 'g) anib_env \<Rightarrow> string \<Rightarrow> int \<Rightarrow> 'g list \<Rightarrow> (unit, 'w, event) io" where
  "fragment_genomes env fragdir fragsize [] = return_io ()"
| "fragment_genomes env fragdir fragsize (genome # rest) =
     bind_io (fragment_fasta_file env (genome_path env genome) fragdir fragsize)
       (\<lambda>(fragpath, fraglengths).
     bind_io (call (Ev_print fragpath (length fraglengths)) (\<lambda>w. (Inr (), w))) (\<lambda>_.
     fragment_genomes env fragdir fragsize rest))"

text \<open>Lines 241 to 258: \<^verbatim>\<open>generate_joblist\<close> raises whatever it is given.\<close>

definition generate_joblist ::
  "('g \<times> 'g) list \<Rightarrow> string list option \<Rightarrow> string list \<Rightarrow> string list \<Rightarrow> Namespace
   \<Rightarrow> (unit, 'w, event) io" where
  "generate_joblist comparisons existingfiles fragfiles fraglens args =
     raise_io NotImplementedError"

text \<open>
  Lines 175 to 238, the statements after the \<^verbatim>\<open>raise\<close> of line 173: enumeration,
  filter, the early return when nothing is left to run, recovery, fragmenting through
  the library, and the job list. \<^verbatim>\<open>tqdm\<close> hands the genomes through unchanged.
\<close>

definition subcmd_anib_tail ::
  "('w, 's, 'r, 'g) anib_env \<Rightarrow> Namespace \<Rightarrow> ('s, 'r, 'g) anib_ctx \<Rightarrow> (unit, 'w, event) io" where
  "subcmd_anib_tail env args ctx =
     (case ctx of (blastn_version, session, run, genomes, fragdir0) \<Rightarrow>
     (let comparisons = permutations2 genomes in
     bind_io (call (Ev_filter_existing_comparisons (length comparisons))
                (filter_existing_comparisons env session run comparisons ''blastn''
                   blastn_version (args_fragsize args)))
       (\<lambda>comparisons_to_run.
     if comparisons_to_run = [] then
       bind_io (call Ev_update_comparison_matrices (update_comparison_matrices env session run))
         (\<lambda>_. return_io ())
     else
       bind_io (if args_recovery args
                then bind_io (call (Ev_collect_existing_output (args_outdir args))
                               (collect_existing_output env (args_outdir args) ''blastn'' args))
                       (\<lambda>fs. return_io (Some fs))
                else return_io None)
         (\<lambda>existingfiles.
       (let fragdir = joinpath env (args_outdir args) ''fragments'' in
       bind_io (call (Ev_makedirs fragdir) (makedirs env fragdir)) (\<lambda>_.
       bind_io (call (Ev_fragment_fasta_files (map (genome_path env) genomes) fragdir)
                  (fragment_fasta_files env (map (genome_path env) genomes) fragdir
                     (args_fragsize args)))
         (\<lambda>(fragfiles, fraglens).
       bind_io (generate_joblist comparisons_to_run existingfiles fragfiles fraglens args)
         (\<lambda>joblist.
       raise_io NotImplementedError))))))))"

text \<open>
  The whole of \<^verbatim>\<open>subcmd_anib\<close>: the setup, the fragmenting loop, the \<^verbatim>\<open>raise\<close> of
  line 173, and the statements that follow it.
\<close>

definition subcmd_anib_fragmented ::
  "('w, 's, 'r, 'g) anib_env \<Rightarrow> Namespace \<Rightarrow> (('s, 'r, 'g) anib_ctx, 'w, event) io" where
  "subcmd_anib_fragmented env args =
     bind_io (subcmd_anib_setup env args) (\<lambda>ctx.
       (case ctx of (blastn_version, session, run, genomes, fragdir) \<Rightarrow>
     bind_io (fragment_genomes env fragdir (args_fragsize args) genomes) (\<lambda>_.
     return_io ctx)))"

definition subcmd_anib :: "('w, 's, 'r, 'g) anib_env \<Rightarrow> Namespace \<Rightarrow> (unit, 'w, event) io" where
  "subcmd_anib env args =
     bind_io (subcmd_anib_fragmented env args) (\<lambda>ctx.
     bind_io (raise_io NotImplementedError) (\<lambda>_ :: unit.
     subcmd_anib_tail env args ctx))"

text \<open>
  The exit status of the Python process when nothing above \<^verbatim>\<open>subcmd_anib\<close> catches
  the exception: \<^verbatim>\<open>SystemExit(n)\<close> ends the process with status \<open>n\<close>, any other
  exception with a traceback and status 1, a normal return with status 0.
\<close>

definition exit_status :: "exn + 'a \<Rightarrow> int" where
  "exit_status r = (case r of Inr x \<Rightarrow> 0 | Inl (SystemExit n) \<Rightarrow> n | Inl e \<Rightarrow> 1)"

subsection \<open>write_run_heatmaps\<close>
















subsection \<open>A concrete world for running the model\<close>

text \<open>
  A small world on which the model can be evaluated: the genome files by path,
  the fragment files written so far, the runs of the database (each with its
  status), and how often the summary matrices were updated. The knobs say which
  collaborator fails and with what: a session that cannot be opened, genomes that
  cannot be added, a directory that cannot be made, a \<^verbatim>\<open>SeqIO.write\<close> that stops
  with \<^verbatim>\<open>OSError\<close> after some records, leaving what it wrote.
\<close>

record demo_world =
  genome_files :: "(string \<times> SeqRecord list) list"
  written :: "(string \<times> SeqRecord list) list"
  runs :: "(string \<times> string) list"
  matrices_updates :: nat

record demo_knobs =
  session_fails :: "exn option"
  genomes_fail :: "exn option"
  makedirs_fails :: "string \<Rightarrow> exn option"
  write_stops_after :: "nat option"
  all_in_database :: bool

definition demo_write ::
  "demo_knobs \<Rightarrow> SeqRecord list \<Rightarrow> string \<Rightarrow> demo_world \<Rightarrow> (exn + unit) \<times> demo_world" where
  "demo_write k outseqs path w =
     (case write_stops_after k of
        None \<Rightarrow> (Inr (), w\<lparr>written := AList.update path outseqs (written w)\<rparr>)
      | Some n \<Rightarrow>
          if n < length outseqs
          then (Inl OSError, w\<lparr>written := AList.update path (take n outseqs) (written w)\<rparr>)
          else (Inr (), w\<lparr>written := AList.update path outseqs (written w)\<rparr>))"

fun join_strings :: "string \<Rightarrow> string list \<Rightarrow> string" where
  "join_strings sep [] = []"
| "join_strings sep [x] = x"
| "join_strings sep (x # y # ys) = x @ sep @ join_strings sep (y # ys)"

definition demo_json :: "(string \<times> nat) list \<Rightarrow> string" where
  "demo_json sizedict =
     ''{'' @ join_strings '', ''
              (map (\<lambda>(key, n). [CHR 0x22] @ key @ [CHR 0x22] @ '': '' @ str_nat n) sizedict)
     @ ''}''"

definition demo_env :: "demo_knobs \<Rightarrow> (demo_world, nat, nat, string) anib_env" where
  "demo_env k =
     \<lparr>get_version = (\<lambda>exe w. (Inr ''2.9.0+'', w)),
      datetime_now_isoformat = (\<lambda>w. (Inr ''2019-01-01T00:00:00'', w)),
      get_session = (\<lambda>dbpath w. case session_fails k of
                        Some e \<Rightarrow> (Inl e, w) | None \<Rightarrow> (Inr 0, w)),
      add_run = (\<lambda>session method cmdline date status name w.
                   (Inr (length (runs w)), w\<lparr>runs := runs w @ [(name, status)]\<rparr>)),
      add_run_genomes = (\<lambda>session run indir classes labels w. case genomes_fail k of
                           Some e \<Rightarrow> (Inl e, w)
                         | None \<Rightarrow> (Inr (map int [0..<length (genome_files w)]), w)),
      run_genomes_all = (\<lambda>run w. (Inr (map fst (genome_files w)), w)),
      genome_path = (\<lambda>g. g),
      makedirs = (\<lambda>path w. case makedirs_fails k path of
                     Some e \<Rightarrow> (Inl e, w) | None \<Rightarrow> (Inr (), w)),
      joinpath = (\<lambda>dir file. dir @ ''/'' @ file),
      stem = (\<lambda>path. path),
      SeqIO_parse = (\<lambda>path w. case map_of (genome_files w) path of
                       Some recs \<Rightarrow> (recs, None) | None \<Rightarrow> ([], Some OSError)),
      SeqIO_write = demo_write k,
      json_dumps = demo_json,
      filter_existing_comparisons = (\<lambda>session run comparisons program version fragsize w.
                                       (Inr (if all_in_database k then [] else comparisons), w)),
      update_comparison_matrices = (\<lambda>session run w.
                                      (Inr (), w\<lparr>matrices_updates := Suc (matrices_updates w)\<rparr>)),
      collect_existing_output = (\<lambda>outdir program args w. (Inr [], w)),
      fragment_fasta_files = (\<lambda>paths outdir fragsize w. (Inr ([], []), w))\<rparr>"

definition demo_knobs0 :: demo_knobs where
  "demo_knobs0 =
     \<lparr>session_fails = None, genomes_fail = None, makedirs_fails = (\<lambda>p. None),
      write_stops_after = None, all_in_database = False\<rparr>"

definition demo_args :: Namespace where
  "demo_args =
     \<lparr>args_blastn_exe = ''blastn'', args_name = None, args_dbpath = ''db'',
      args_cmdline = ''pyani anib'', args_indir = ''in'', args_classes = ''classes.txt'',
      args_labels = ''labels.txt'', args_outdir = ''out'', args_fragsize = 3,
      args_disable_tqdm = True, args_recovery = False, args_run_id = ''1'',
      args_method = ''mpl'', args_formats = ''png''\<rparr>"

definition demo_record :: "string \<Rightarrow> string \<Rightarrow> SeqRecord" where
  "demo_record i letters = \<lparr>id_r = i, description_r = i, seq_r = letters\<rparr>"

definition demo_state :: "(string \<times> SeqRecord list) list \<Rightarrow> (demo_world, event) pstate" where
  "demo_state gs =
     \<lparr>world = \<lparr>genome_files = gs, written = [], runs = [], matrices_updates = 0\<rparr>,
      trace = []\<rparr>"

definition demo_genomes :: "(string \<times> SeqRecord list) list" where
  "demo_genomes =
     [(''g1'', [demo_record ''c1'' ''ACGTACG'']), (''g2'', [demo_record ''c1'' ''ACGT''])]"



subsection \<open>Auxiliary functions for the proofs\<close>

definition record_frags :: "SeqRecord \<Rightarrow> nat \<Rightarrow> nat \<Rightarrow> nat \<Rightarrow> SeqRecord list" where
  "record_frags seq f i c =
     map (\<lambda>k. seq\<lparr>seq_r := take f (drop (i + k * f) (seq_r seq)), id_r := frag_id (c + Suc k)\<rparr>)
       [0..<(length (seq_r seq) - i + f - 1) div f]"

definition record_sizes :: "SeqRecord list \<Rightarrow> (string \<times> nat) list \<Rightarrow> (string \<times> nat) list" where
  "record_sizes news sd = fold (\<lambda>r. AList.update (id_r r) (length (seq_r r))) news sd"

definition digit_val :: "char \<Rightarrow> nat" where
  "digit_val c = of_char c - 48"

definition undigits :: "string \<Rightarrow> nat" where
  "undigits s = foldl (\<lambda>a c. 10 * a + digit_val c) 0 s"

fun all_frags :: "SeqRecord list \<Rightarrow> nat \<Rightarrow> nat \<Rightarrow> SeqRecord list" where
  "all_frags [] f c = []"
| "all_frags (seq # rest) f c =
     record_frags seq f 0 c @ all_frags rest f (c + length (record_frags seq f 0 c))"

definition chunks :: "nat \<Rightarrow> 'a list \<Rightarrow> 'a list list" where
  "chunks f xs = map (\<lambda>k. take f (drop (k * f) xs)) [0..<(length xs + f - 1) div f]"

text \<open>
  The events of the setup and of the fragmenting loop; a run is only ever added with
  the status \<^verbatim>\<open>started\<close>.
\<close>

fun setup_event :: "event \<Rightarrow> bool" where
  "setup_event (Ev_get_version exe) = True"
| "setup_event Ev_now = True"
| "setup_event (Ev_get_session dbpath) = True"
| "setup_event (Ev_add_run method cmdline status name) = (status = ''started'')"
| "setup_event (Ev_add_run_genomes indir) = True"
| "setup_event Ev_genomes_all = True"
| "setup_event (Ev_makedirs path) = True"
| "setup_event (Ev_parse path) = True"
| "setup_event (Ev_write outseqs path) = True"
| "setup_event (Ev_print path n) = True"
| "setup_event (Ev_filter_existing_comparisons n) = False"
| "setup_event Ev_update_comparison_matrices = False"
| "setup_event (Ev_collect_existing_output outdir) = False"
| "setup_event (Ev_fragment_fasta_files paths outdir) = False"

definition emits_only :: "('e \<Rightarrow> bool) \<Rightarrow> ('a, 'w, 'e) io \<Rightarrow> bool" where
  "emits_only P m =
     (\<forall>s r s'. m s = Some (r, s') \<longrightarrow> (\<exists>evs. trace s' = trace s @ evs \<and> list_all P evs))"










section \<open>Properties\<close>

subsection \<open>The fragmenting loops\<close>

lemma si1: "i \<le> length xs \<Longrightarrow> slice_index (int (length xs)) (int i) = i"
  by (simp add: slice_index_def)

lemma si2: "slice_index (int (length xs)) (int i + int f) = min (i + f) (length xs)"
  by (simp add: slice_index_def min_def nat_add_distrib)

lemma si3: "\<not> i \<le> length xs \<Longrightarrow> slice_index (int (length xs)) (int i) = length xs"
  by (simp add: slice_index_def)

lemma py_slice_nat: "py_slice xs (int i) (int i + int f) = take f (drop i xs)"
proof (cases "i \<le> length xs")
  case True
  have "min (i + f) (length xs) - i = min f (length xs - i)" using True by simp
  then show ?thesis
    unfolding py_slice_def Let_def si2 si1[OF True] by (simp add: min_def)
next
  case False
  show ?thesis
    unfolding py_slice_def Let_def si2 si3[OF False] using False by simp
qed

lemma ceil_step:
  fixes L i f :: nat
  assumes "0 < f" "i < L"
  shows "(L - i + f - 1) div f = Suc ((L - (i + f) + f - 1) div f)"
proof (cases "i + f \<le> L")
  case True
  define r where "r = L - (i + f) + f - 1"
  have "L - i + f - 1 = r + f" unfolding r_def using True assms by arith
  then have "(L - i + f - 1) div f = (r + f) div f" by (rule arg_cong)
  also have "\<dots> = Suc (r div f)" using assms(1) div_add_self2[of f r] by simp
  finally show ?thesis unfolding r_def .
next
  case False
  then have a: "(L - (i + f) + f - 1) div f = 0" using assms(1) by simp
  have b: "f * 1 \<le> L - i + f - 1" "L - i + f - 1 < f * Suc 1" using assms False by arith+
  have "(L - i + f - 1) div f = 1"
    using b by (rule div_nat_eqI)
  then show ?thesis unfolding a by simp
qed

lemma fragment_while_done:
  "int (length (seq_r seq)) \<le> idx \<Longrightarrow> fragment_while seq F idx c out sd = Some (c, out, sd)"
  by (subst fragment_while.simps) simp

lemma slice_record_nat:
  "slice_record s (int i) (int i + int f) = s\<lparr>seq_r := take f (drop i (seq_r s))\<rparr>"
  by (simp add: slice_record_def py_slice_nat)

lemma fragment_while_step:
  assumes "i < length (seq_r seq)"
  shows "fragment_while seq (int f) (int i) c out sd =
         fragment_while seq (int f) (int (i + f)) (Suc c)
           (out @ [seq\<lparr>seq_r := take f (drop i (seq_r seq)), id_r := frag_id (Suc c)\<rparr>])
           (AList.update (frag_id (Suc c)) (length (take f (drop i (seq_r seq)))) sd)"
proof -
  have "fragment_while seq (int f) (int i) c out sd =
        fragment_while seq (int f) (int i + int f) (c + 1)
          (out @ [(slice_record seq (int i) (int i + int f))\<lparr>id_r := frag_id (c + 1)\<rparr>])
          (AList.update (frag_id (c + 1))
             (length (seq_r (slice_record seq (int i) (int i + int f)))) sd)"
    using assms by (subst fragment_while.simps) simp
  then show ?thesis by (simp add: slice_record_nat)
qed

lemma record_frags_done:
  assumes "0 < f" "length (seq_r seq) \<le> i"
  shows "record_frags seq f i c = []"
proof -
  have "(length (seq_r seq) - i + f - 1) div f = 0" using assms by simp
  then show ?thesis by (simp add: record_frags_def)
qed

lemma record_frags_step:
  assumes "0 < f" "i < length (seq_r seq)"
  shows "record_frags seq f i c =
         seq\<lparr>seq_r := take f (drop i (seq_r seq)), id_r := frag_id (Suc c)\<rparr>
         # record_frags seq f (i + f) (Suc c)"
proof -
  define m where "m = (length (seq_r seq) - (i + f) + f - 1) div f"
  have n: "(length (seq_r seq) - i + f - 1) div f = Suc m"
    unfolding m_def using assms by (rule ceil_step)
  have u: "[0..<Suc m] = 0 # map Suc [0..<m]"
    by (simp add: upt_conv_Cons map_Suc_upt del: upt_Suc)
  show ?thesis
    unfolding record_frags_def n m_def[symmetric] u
    by (simp add: add.assoc add.left_commute)
qed

lemma fragment_while_char:
  assumes "0 < f"
  shows "fragment_while seq (int f) (int i) c out sd =
         Some (c + length (record_frags seq f i c), out @ record_frags seq f i c,
               record_sizes (record_frags seq f i c) sd)"
proof (induction "length (seq_r seq) - i" arbitrary: i c out sd rule: less_induct)
  case less
  show ?case
  proof (cases "i < length (seq_r seq)")
    case True
    have d: "length (seq_r seq) - (i + f) < length (seq_r seq) - i" using True assms by arith
    show ?thesis
      unfolding fragment_while_step[OF True] less[OF d] record_frags_step[OF assms True]
      by (simp add: record_sizes_def)
  next
    case False
    then have le: "length (seq_r seq) \<le> i" by simp
    then have "int (length (seq_r seq)) \<le> int i" by simp
    then show ?thesis
      unfolding record_frags_done[OF assms le] by (simp add: fragment_while_done record_sizes_def)
  qed
qed

lemma digit_val_char: "d < 10 \<Longrightarrow> digit_val (digit_char d) = d"
proof -
  assume "d < 10"
  then have "d = 0 \<or> d = 1 \<or> d = 2 \<or> d = 3 \<or> d = 4 \<or> d = 5 \<or> d = 6 \<or> d = 7
    \<or> d = 8 \<or> d = 9" by presburger
  then show ?thesis by (elim disjE) (simp_all add: digit_val_def digit_char_def)
qed

lemma str_nat_small: "n < 10 \<Longrightarrow> str_nat n = [digit_char n]"
  by (subst str_nat.simps) simp


lemma undigits_snoc: "undigits (s @ [c]) = 10 * undigits s + digit_val c"
  by (simp add: undigits_def)

lemma undigits_str_nat: "undigits (str_nat n) = n"
proof (induction n rule: str_nat.induct)
  case (1 n)
  show ?case
  proof (cases "n < 10")
    case True
    then have "str_nat n = [digit_char n]" by (subst str_nat.simps) simp
    then show ?thesis using True by (simp add: undigits_def digit_val_char)
  next
    case False
    then have e: "str_nat n = str_nat (n div 10) @ [digit_char (n mod 10)]"
      by (subst str_nat.simps) simp
    have "undigits (str_nat n) = 10 * (n div 10) + n mod 10"
      unfolding e undigits_snoc using 1[OF False] by (simp add: digit_val_char)
    then show ?thesis by simp
  qed
qed

lemma undigits_zeros: "undigits (replicate k (CHR ''0'') @ s) = undigits s"
proof -
  have "foldl (\<lambda>a c. 10 * a + digit_val c) 0 (replicate k (CHR ''0'')) = 0"
    by (induction k) (simp_all add: digit_val_def)
  then show ?thesis by (simp add: undigits_def)
qed

lemma undigits_format: "undigits (format_05d n) = n"
  by (simp add: format_05d_def Let_def undigits_zeros undigits_str_nat)

lemma frag_id_inj: "frag_id a = frag_id b \<Longrightarrow> a = b"
proof -
  assume "frag_id a = frag_id b"
  then have "format_05d a = format_05d b" by (simp add: frag_id_def)
  then have "undigits (format_05d a) = undigits (format_05d b)" by simp
  then show ?thesis by (simp only: undigits_format)
qed

lemma record_sizes_append:
  "record_sizes (a @ b) sd = record_sizes b (record_sizes a sd)"
  by (simp add: record_sizes_def)

lemma fragment_records_char:
  assumes "0 < f"
  shows "fragment_records recs (int f) (c, out, sd) =
         Some (c + length (all_frags recs f c), out @ all_frags recs f c,
               record_sizes (all_frags recs f c) sd)"
proof (induction recs arbitrary: c out sd)
  case Nil
  show ?case by (simp add: record_sizes_def)
next
  case (Cons seq rest)
  have w: "fragment_while seq (int f) 0 c out sd =
           Some (c + length (record_frags seq f 0 c), out @ record_frags seq f 0 c,
                 record_sizes (record_frags seq f 0 c) sd)"
    using fragment_while_char[OF assms, of seq 0 c out sd] by simp
  show ?case
    by (simp add: w Cons.IH record_sizes_append add.assoc)
qed

lemma record_frags_ids:
  "map id_r (record_frags seq f i c) =
   map frag_id [Suc c..<Suc c + length (record_frags seq f i c)]"
proof -
  define m where "m = (length (seq_r seq) - i + f - 1) div f"
  have "map (\<lambda>k. k + Suc c) [0..<m] = [Suc c..<m + Suc c]" by (rule map_add_upt)
  then have "map frag_id (map (\<lambda>k. k + Suc c) [0..<m]) = map frag_id [Suc c..<Suc c + m]"
    by (simp add: add.commute)
  then show ?thesis
    unfolding record_frags_def m_def[symmetric] by (simp add: comp_def add.commute)
qed

lemma all_frags_ids:
  "map id_r (all_frags recs f c) = map frag_id [Suc c..<Suc c + length (all_frags recs f c)]"
proof (induction recs arbitrary: c)
  case Nil
  show ?case by simp
next
  case (Cons seq rest)
  define a where "a = length (record_frags seq f 0 c)"
  define b where "b = length (all_frags rest f (c + a))"
  have "[Suc c..<Suc c + a + b] = [Suc c..<Suc c + a] @ [Suc c + a..<Suc c + a + b]"
    by (rule upt_add_eq_append) simp
  then have "map frag_id [Suc c..<Suc c + (a + b)] =
             map frag_id [Suc c..<Suc c + a] @ map frag_id [Suc (c + a)..<Suc (c + a) + b]"
    by (simp add: add.assoc)
  then show ?case
    using record_frags_ids[of seq f 0 c] Cons.IH[of "c + a"]
    by (simp add: a_def[symmetric] b_def[symmetric])
qed

lemma frag_ids_distinct: "distinct (map frag_id [a..<b])"
  by (simp add: distinct_map inj_on_def) (metis frag_id_inj)

lemma all_frags_seqs:
  "map seq_r (all_frags recs f c) = concat (map (\<lambda>r. chunks f (seq_r r)) recs)"
  by (induction recs arbitrary: c) (simp_all add: record_frags_def chunks_def comp_def)

lemma update_fresh: "k \<notin> fst ` set al \<Longrightarrow> AList.update k v al = al @ [(k, v)]"
  by (induction al) auto

lemma record_sizes_fresh:
  "distinct (map id_r news) \<Longrightarrow> set (map id_r news) \<inter> fst ` set sd = {} \<Longrightarrow>
   record_sizes news sd = sd @ map (\<lambda>r. (id_r r, length (seq_r r))) news"
proof (induction news arbitrary: sd)
  case Nil
  show ?case by (simp add: record_sizes_def)
next
  case (Cons r news)
  have f: "id_r r \<notin> fst ` set sd" using Cons.prems(2) by auto
  have d: "distinct (map id_r news)" using Cons.prems(1) by simp
  have i: "set (map id_r news) \<inter> fst ` set (sd @ [(id_r r, length (seq_r r))]) = {}"
    using Cons.prems by auto
  have "record_sizes (r # news) sd = record_sizes news (sd @ [(id_r r, length (seq_r r))])"
    by (simp add: record_sizes_def update_fresh[OF f])
  then show ?case using Cons.IH[OF d i] by simp
qed

lemma chunks_length: "length (chunks f xs) = (length xs + f - 1) div f"
  by (simp add: chunks_def)

lemma ceil_bounds:
  fixes L f :: nat
  assumes "0 < f" "0 < (L + f - 1) div f"
  shows "((L + f - 1) div f - 1) * f < L" and "L \<le> ((L + f - 1) div f - 1) * f + f"
proof -
  define n where "n = (L + f - 1) div f"
  define p where "p = (n - 1) * f"
  have n0: "0 < n" using assms(2) by (simp add: n_def)
  then have nf: "n * f = p + f" unfolding p_def by (cases n) simp_all
  have L0: "0 < L"
  proof (rule ccontr)
    assume "\<not> 0 < L"
    then have "n = (f - 1) div f" by (simp add: n_def)
    then have "n = 0" using assms(1) by simp
    then show False using n0 by simp
  qed
  have "n * f \<le> L + f - 1" unfolding n_def by (rule div_times_less_eq_dividend)
  then show "((L + f - 1) div f - 1) * f < L"
    unfolding n_def[symmetric] p_def[symmetric] nf using L0 assms(1) by arith
  have "L + f - 1 < f + n * f" unfolding n_def using assms(1) by (rule dividend_less_div_times)
  then show "L \<le> ((L + f - 1) div f - 1) * f + f"
    unfolding n_def[symmetric] p_def[symmetric] nf by arith
qed

lemma chunks_nth_length:
  assumes "0 < f" "k < length (chunks f xs)"
  shows "length (chunks f xs ! k) =
         (if Suc k < length (chunks f xs) then f
          else length xs - (length (chunks f xs) - 1) * f)"
proof -
  define n where "n = (length xs + f - 1) div f"
  have ln: "length (chunks f xs) = n" by (simp add: chunks_def n_def)
  have k: "k < n" using assms(2) ln by simp
  then have n0: "0 < (length xs + f - 1) div f" by (simp add: n_def)
  have b1: "(n - 1) * f < length xs" and b2: "length xs \<le> (n - 1) * f + f"
    unfolding n_def using ceil_bounds[OF assms(1) n0] by simp_all
  have len: "length (chunks f xs ! k) = min f (length xs - k * f)"
    unfolding chunks_def n_def[symmetric] using k by simp
  show ?thesis
  proof (cases "Suc k < n")
    case True
    then have "Suc k \<le> n - 1" by simp
    then have "Suc k * f \<le> (n - 1) * f" by (rule mult_le_mono1)
    then have "k * f + f < length xs" using b1 by simp
    then show ?thesis unfolding len ln using True by simp
  next
    case False
    then have e: "k = n - 1" using k by simp
    show ?thesis unfolding len ln using False b2 by (simp add: e)
  qed
qed

lemma chunks_last_bounds:
  assumes "0 < f" "0 < length (chunks f xs)"
  shows "0 < length xs - (length (chunks f xs) - 1) * f"
    and "length xs - (length (chunks f xs) - 1) * f \<le> f"
proof -
  have n0: "0 < (length xs + f - 1) div f" using assms(2) by (simp add: chunks_def)
  show "0 < length xs - (length (chunks f xs) - 1) * f"
    unfolding chunks_length using ceil_bounds(1)[OF assms(1) n0] by simp
  show "length xs - (length (chunks f xs) - 1) * f \<le> f"
    unfolding chunks_length using ceil_bounds(2)[OF assms(1) n0] by simp
qed

lemma chunks_Nil: "0 < f \<Longrightarrow> chunks f [] = []"
  by (simp add: chunks_def)

lemma chunks_step:
  assumes "0 < f" "xs \<noteq> []"
  shows "chunks f xs = take f xs # chunks f (drop f xs)"
proof -
  define m where "m = (length xs - (0 + f) + f - 1) div f"
  have "0 < length xs" using assms(2) by simp
  with assms(1) have "(length xs - 0 + f - 1) div f = Suc m"
    unfolding m_def by (rule ceil_step)
  then have n: "(length xs + f - 1) div f = Suc m" by simp
  have m': "(length (drop f xs) + f - 1) div f = m" by (simp add: m_def)
  have u: "[0..<Suc m] = 0 # map Suc [0..<m]"
    by (simp add: upt_conv_Cons map_Suc_upt del: upt_Suc)
  show ?thesis
    unfolding chunks_def n m' u by (simp add: add.commute)
qed

lemma concat_chunks:
  assumes "0 < f"
  shows "concat (chunks f xs) = xs"
proof (induction "length xs" arbitrary: xs rule: less_induct)
  case less
  show ?case
  proof (cases "xs = []")
    case True
    then show ?thesis using assms by (simp add: chunks_Nil)
  next
    case False
    then have "length (drop f xs) < length xs" using assms by simp
    then have "concat (chunks f (drop f xs)) = drop f xs" by (rule less)
    then show ?thesis unfolding chunks_step[OF assms False] by simp
  qed
qed

lemma fragment_while_returns_only_past_end:
  assumes "fragment_while seq F idx c out sd = Some y"
  shows "F \<le> 0 \<longrightarrow> int (length (seq_r seq)) \<le> idx"
proof (rule fragment_while.raw_induct
    [where P = "\<lambda>seq F idx c out sd y. F \<le> 0 \<longrightarrow> int (length (seq_r seq)) \<le> idx",
     OF _ assms])
  fix g :: "SeqRecord \<Rightarrow> int \<Rightarrow> int \<Rightarrow> nat \<Rightarrow> SeqRecord list \<Rightarrow> (string \<times> nat) list
              \<Rightarrow> frag_state option"
    and seq :: SeqRecord and F idx :: int and c :: nat and out :: "SeqRecord list"
    and sd :: "(string \<times> nat) list" and y :: frag_state
  assume IH: "\<And>seq F idx c out sd y. g seq F idx c out sd = Some y \<Longrightarrow>
                F \<le> 0 \<longrightarrow> int (length (seq_r seq)) \<le> idx"
  assume body: "(if idx < int (length (seq_r seq))
      then g seq F (idx + F) (c + 1)
        (out @ [slice_record seq idx (idx + F)\<lparr>id_r := frag_id (c + 1)\<rparr>])
        (AList.update (frag_id (c + 1)) (length (seq_r (slice_record seq idx (idx + F)))) sd)
      else Some (c, out, sd)) = Some y"
  show "F \<le> 0 \<longrightarrow> int (length (seq_r seq)) \<le> idx"
  proof (cases "idx < int (length (seq_r seq))")
    case True
    with body have "g seq F (idx + F) (c + 1)
        (out @ [slice_record seq idx (idx + F)\<lparr>id_r := frag_id (c + 1)\<rparr>])
        (AList.update (frag_id (c + 1)) (length (seq_r (slice_record seq idx (idx + F)))) sd)
        = Some y" by simp
    then have "F \<le> 0 \<longrightarrow> int (length (seq_r seq)) \<le> idx + F" by (rule IH)
    then show ?thesis using True by auto
  next
    case False
    then show ?thesis by simp
  qed
qed

lemma fragment_while_diverges:
  assumes "F \<le> 0" "idx < int (length (seq_r seq))"
  shows "fragment_while seq F idx c out sd = None"
proof (cases "fragment_while seq F idx c out sd")
  case None
  then show ?thesis .
next
  case (Some y)
  then have "int (length (seq_r seq)) \<le> idx"
    using fragment_while_returns_only_past_end assms(1) by blast
  then show ?thesis using assms(2) by simp
qed

lemma fragment_records_diverges:
  assumes "F \<le> 0" "\<exists>r\<in>set recs. seq_r r \<noteq> []"
  shows "fragment_records recs F st = None"
  using assms(2)
proof (induction recs arbitrary: st)
  case Nil
  then show ?case by simp
next
  case (Cons seq rest)
  obtain c out sd where st: "st = (c, out, sd)" by (cases st) auto
  show ?case
  proof (cases "seq_r seq = []")
    case True
    then have w: "fragment_while seq F 0 c out sd = Some (c, out, sd)"
      by (simp add: fragment_while_done)
    from True Cons.prems have "\<exists>r\<in>set rest. seq_r r \<noteq> []" by auto
    then have "fragment_records rest F (c, out, sd) = None" by (rule Cons.IH)
    then show ?thesis by (simp add: st w)
  next
    case False
    then have "(0::int) < int (length (seq_r seq))" by simp
    with assms(1) have "fragment_while seq F 0 c out sd = None"
      by (rule fragment_while_diverges)
    then show ?thesis by (simp add: st)
  qed
qed

lemma fragment_records_empty_records:
  assumes "\<forall>r\<in>set recs. seq_r r = []"
  shows "fragment_records recs F st = Some st"
  using assms
proof (induction recs)
  case Nil
  show ?case by simp
next
  case (Cons seq rest)
  obtain c out sd where st: "st = (c, out, sd)" by (cases st) auto
  have w: "fragment_while seq F 0 c out sd = Some (c, out, sd)"
    using Cons.prems by (simp add: fragment_while_done)
  show ?case using Cons by (simp add: st w)
qed

subsection \<open>fragment_fasta_file as a whole\<close>

lemma fragment_fasta_file_unfold:
  assumes "SeqIO_parse env inpath (world s) = (recs, err)"
  shows "fragment_fasta_file env inpath outdir F s =
     (case fragment_records recs F (0, [], []) of
        None \<Rightarrow> None
      | Some (c, outseqs, sd) \<Rightarrow>
          (case err of
             Some e \<Rightarrow> Some (Inl e, \<lparr>world = world s, trace = trace s @ [Ev_parse inpath]\<rparr>)
           | None \<Rightarrow>
               Some (case fst (SeqIO_write env outseqs
                                 (joinpath env outdir (stem env inpath @ ''-fragments.fasta''))
                                 (world s)) of
                       Inl e \<Rightarrow> Inl e
                     | Inr u \<Rightarrow> Inr (joinpath env outdir (stem env inpath @ ''-fragments.fasta''),
                                   json_dumps env sd),
                     \<lparr>world = snd (SeqIO_write env outseqs
                                      (joinpath env outdir (stem env inpath @ ''-fragments.fasta''))
                                      (world s)),
                      trace = trace s @ [Ev_parse inpath,
                        Ev_write outseqs
                          (joinpath env outdir (stem env inpath @ ''-fragments.fasta''))]\<rparr>)))"
  using assms
  by (simp add: fragment_fasta_file_def bind_io_def call_def raise_io_def return_io_def Let_def
      split: option.splits prod.splits sum.splits)

lemma fragment_records_result:
  assumes "0 < f"
  shows "\<exists>news. fragment_records recs (int f) (0, [], []) =
            Some (length news, news, map (\<lambda>r. (id_r r, length (seq_r r))) news)
          \<and> map id_r news = map frag_id [1..<Suc (length news)]
          \<and> map seq_r news = concat (map (\<lambda>r. chunks f (seq_r r)) recs)"
proof -
  define news where "news = all_frags recs f 0"
  have ids: "map id_r news = map frag_id [1..<Suc (length news)]"
    unfolding news_def using all_frags_ids[of recs f 0] by simp
  then have d: "distinct (map id_r news)" by (simp only: frag_ids_distinct)
  have sz: "record_sizes news [] = map (\<lambda>r. (id_r r, length (seq_r r))) news"
    using record_sizes_fresh[OF d, of "[]"] by simp
  have "fragment_records recs (int f) (0, [], []) =
        Some (length news, news, map (\<lambda>r. (id_r r, length (seq_r r))) news)"
    unfolding news_def[symmetric] sz[symmetric]
    using fragment_records_char[OF assms, of recs 0 "[]" "[]"] by (simp add: news_def)
  moreover have "map seq_r news = concat (map (\<lambda>r. chunks f (seq_r r)) recs)"
    unfolding news_def by (rule all_frags_seqs)
  ultimately show ?thesis using ids by blast
qed

lemma sum_chunk_lengths:
  assumes "0 < f"
  shows "sum_list (map length (concat (map (\<lambda>r. chunks f (seq_r r)) recs))) =
         sum_list (map (\<lambda>r. length (seq_r r)) recs)"
proof (induction recs)
  case Nil
  show ?case by simp
next
  case (Cons r recs)
  have "sum_list (map length (chunks f (seq_r r))) = length (concat (chunks f (seq_r r)))"
    by (simp add: length_concat)
  then have "sum_list (map length (chunks f (seq_r r))) = length (seq_r r)"
    by (simp only: concat_chunks[OF assms])
  then show ?case using Cons.IH by simp
qed

lemma str_nat_length_pos: "0 < length (str_nat n)"
  by (subst str_nat.simps) simp





subsection \<open>Enumeration of the comparisons\<close>

lemma filter_neq_upt_length:
  assumes "i < n"
  shows "length (filter (\<lambda>j. i \<noteq> j) [0..<n]) = n - 1"
proof -
  have "{x. i \<noteq> x} \<inter> set [0..<n] = {0..<n} - {i}" by auto
  then have "length (filter (\<lambda>j. i \<noteq> j) [0..<n]) = card ({0..<n} - {i})"
    by (simp add: distinct_length_filter)
  then show ?thesis using assms by simp
qed

lemma index_pairs_length:
  "length (filter (\<lambda>(i, j). i \<noteq> j) (List.product [0..<n] [0..<n])) = n * (n - 1)"
proof -
  have e: "filter (\<lambda>(i, j). i \<noteq> j) (List.product [0..<n] [0..<n]) =
        concat (map (\<lambda>i. map (Pair i) (filter (\<lambda>j. i \<noteq> j) [0..<n])) [0..<n])"
    by (simp add: product_concat_map filter_concat comp_def filter_map)
  have m: "map (\<lambda>i. length (filter (\<lambda>j. i \<noteq> j) [0..<n])) [0..<n] = map (\<lambda>i. n - 1) [0..<n]"
    by (rule map_cong) (simp_all add: filter_neq_upt_length)
  have "sum_list (map (\<lambda>i. n - 1) [0..<n]) = n * (n - 1)"
    by (simp add: sum_list_triv)
  then have "sum_list (map (\<lambda>i. length (filter (\<lambda>j. i \<noteq> j) [0..<n])) [0..<n]) = n * (n - 1)"
    by (simp only: m)
  then show ?thesis unfolding e by (simp add: length_concat comp_def)
qed

lemma index_pairs_distinct:
  "distinct (filter (\<lambda>(i, j). i \<noteq> j) (List.product [0..<n] [0..<n]))"
  by (simp add: distinct_product)

lemma index_pairs_set:
  "set (filter (\<lambda>(i, j). i \<noteq> j) (List.product [0..<n] [0..<n])) =
   {(i, j). i < n \<and> j < n \<and> i \<noteq> j}"
  by auto

lemma permutations2_length: "length (permutations2 pool) = length pool * (length pool - 1)"
  by (simp add: permutations2_def index_pairs_length)

lemma permutations2_distinct:
  assumes "distinct pool"
  shows "distinct (permutations2 pool)"
proof -
  have "inj_on (\<lambda>(i, j). (pool ! i, pool ! j))
          (set (filter (\<lambda>(i, j). i \<noteq> j) (List.product [0..<length pool] [0..<length pool])))"
    unfolding index_pairs_set
    by (rule inj_onI) (use assms in \<open>auto simp: nth_eq_iff_index_eq\<close>)
  then show ?thesis
    unfolding permutations2_def by (simp add: distinct_map index_pairs_distinct)
qed

lemma permutations2_set:
  assumes "distinct pool"
  shows "set (permutations2 pool) = {(q, r). q \<in> set pool \<and> r \<in> set pool \<and> q \<noteq> r}"
proof -
  have "set (permutations2 pool) =
        (\<lambda>(i, j). (pool ! i, pool ! j)) ` {(i, j). i < length pool \<and> j < length pool \<and> i \<noteq> j}"
    unfolding permutations2_def set_map index_pairs_set ..
  also have "\<dots> = {(q, r). q \<in> set pool \<and> r \<in> set pool \<and> q \<noteq> r}"
  proof (rule set_eqI, rule iffI)
    fix x assume "x \<in> (\<lambda>(i, j). (pool ! i, pool ! j)) `
                       {(i, j). i < length pool \<and> j < length pool \<and> i \<noteq> j}"
    then obtain i j where "x = (pool ! i, pool ! j)" "i < length pool" "j < length pool" "i \<noteq> j"
      by auto
    then show "x \<in> {(q, r). q \<in> set pool \<and> r \<in> set pool \<and> q \<noteq> r}"
      using assms by (auto simp: nth_eq_iff_index_eq)
  next
    fix x assume "x \<in> {(q, r). q \<in> set pool \<and> r \<in> set pool \<and> q \<noteq> r}"
    then obtain q r where x: "x = (q, r)" and "q \<in> set pool" "r \<in> set pool" "q \<noteq> r" by auto
    then obtain i j where "i < length pool" "pool ! i = q" "j < length pool" "pool ! j = r"
      by (metis in_set_conv_nth)
    moreover from this \<open>q \<noteq> r\<close> have "i \<noteq> j" by auto
    ultimately show "x \<in> (\<lambda>(i, j). (pool ! i, pool ! j)) `
                       {(i, j). i < length pool \<and> j < length pool \<and> i \<noteq> j}"
      unfolding x by force
  qed
  finally show ?thesis .
qed

subsection \<open>Computations with effects\<close>

lemma bind_io_return [simp]: "bind_io (return_io x) f = f x"
  by (simp add: bind_io_def return_io_def)

lemma bind_io_raise [simp]: "bind_io (raise_io e) f = raise_io e"
  by (simp add: bind_io_def raise_io_def)

lemma bind_io_Inr: "m s = Some (Inr a, s') \<Longrightarrow> bind_io m f s = f a s'"
  by (simp add: bind_io_def)

lemma bind_io_Inl: "m s = Some (Inl e, s') \<Longrightarrow> bind_io m f s = Some (Inl e, s')"
  by (simp add: bind_io_def)

lemma bind_io_None: "m s = None \<Longrightarrow> bind_io m f s = None"
  by (simp add: bind_io_def)


lemma emits_only_return: "emits_only P (return_io x)"
  by (simp add: emits_only_def return_io_def)

lemma emits_only_raise: "emits_only P (raise_io e)"
  by (simp add: emits_only_def raise_io_def)

lemma emits_only_call: "P ev \<Longrightarrow> emits_only P (call ev op)"
  by (auto simp: emits_only_def call_def split: prod.splits)

lemma emits_only_bind:
  assumes "emits_only P m" and "\<And>a. emits_only P (f a)"
  shows "emits_only P (bind_io m f)"
  unfolding emits_only_def
proof (intro allI impI)
  fix s r s' assume b: "bind_io m f s = Some (r, s')"
  show "\<exists>evs. trace s' = trace s @ evs \<and> list_all P evs"
  proof (cases "m s")
    case None
    then show ?thesis using b by (simp add: bind_io_def)
  next
    case (Some p)
    obtain r1 s1 where p: "p = (r1, s1)" by (cases p)
    from assms(1) Some p obtain evs1 where e1: "trace s1 = trace s @ evs1" "list_all P evs1"
      unfolding emits_only_def by blast
    show ?thesis
    proof (cases r1)
      case (Inl e)
      then have "s' = s1" using b Some p by (simp add: bind_io_def)
      then show ?thesis using e1 by blast
    next
      case (Inr a)
      then have "f a s1 = Some (r, s')" using b Some p by (simp add: bind_io_def)
      with assms(2) obtain evs2 where "trace s' = trace s1 @ evs2" "list_all P evs2"
        unfolding emits_only_def by blast
      then have "trace s' = trace s @ (evs1 @ evs2)" "list_all P (evs1 @ evs2)"
        using e1 by simp_all
      then show ?thesis by blast
    qed
  qed
qed

lemma emits_only_try:
  assumes "emits_only P m" and "\<And>e. emits_only P (h e)"
  shows "emits_only P (try_except m h)"
  unfolding emits_only_def
proof (intro allI impI)
  fix s r s' assume b: "try_except m h s = Some (r, s')"
  show "\<exists>evs. trace s' = trace s @ evs \<and> list_all P evs"
  proof (cases "m s")
    case None
    then show ?thesis using b by (simp add: try_except_def)
  next
    case (Some p)
    obtain r1 s1 where p: "p = (r1, s1)" by (cases p)
    from assms(1) Some p obtain evs1 where e1: "trace s1 = trace s @ evs1" "list_all P evs1"
      unfolding emits_only_def by blast
    show ?thesis
    proof (cases r1)
      case (Inr a)
      then have "s' = s1" using b Some p by (simp add: try_except_def)
      then show ?thesis using e1 by blast
    next
      case (Inl e)
      then have "h e s1 = Some (r, s')" using b Some p by (simp add: try_except_def)
      with assms(2) obtain evs2 where "trace s' = trace s1 @ evs2" "list_all P evs2"
        unfolding emits_only_def by blast
      then have "trace s' = trace s @ (evs1 @ evs2)" "list_all P (evs1 @ evs2)"
        using e1 by simp_all
      then show ?thesis by blast
    qed
  qed
qed

lemma emits_only_if:
  "emits_only P a \<Longrightarrow> emits_only P b \<Longrightarrow> emits_only P (if c then a else b)"
  by simp

lemma emits_only_fragment_fasta_file:
  "emits_only setup_event (fragment_fasta_file env inpath outdir fragsize)"
  unfolding emits_only_def
proof (intro allI impI)
  fix s r s' assume a: "fragment_fasta_file env inpath outdir fragsize s = Some (r, s')"
  obtain recs err where p: "SeqIO_parse env inpath (world s) = (recs, err)"
    by (cases "SeqIO_parse env inpath (world s)")
  from a show "\<exists>evs. trace s' = trace s @ evs \<and> list_all setup_event evs"
    unfolding fragment_fasta_file_unfold[OF p]
    by (auto split: option.splits prod.splits)
qed

lemma emits_only_fragment_genomes:
  "emits_only setup_event (fragment_genomes env fragdir fragsize genomes)"
proof (induction genomes)
  case Nil
  show ?case by (simp add: emits_only_return)
next
  case (Cons g genomes)
  show ?case
    unfolding fragment_genomes.simps
    by (intro emits_only_bind emits_only_fragment_fasta_file)
      (auto intro!: emits_only_bind emits_only_call Cons.IH)
qed

lemma emits_only_setup: "emits_only setup_event (subcmd_anib_setup env args)"
  unfolding subcmd_anib_setup_def Let_def
  by (intro emits_only_bind emits_only_try emits_only_call emits_only_return emits_only_if
      emits_only_raise)
    (auto intro: emits_only_raise emits_only_return split: option.splits)

lemma emits_only_fragmented: "emits_only setup_event (subcmd_anib_fragmented env args)"
  unfolding subcmd_anib_fragmented_def
  by (intro emits_only_bind emits_only_setup)
    (auto intro!: emits_only_bind emits_only_fragment_genomes emits_only_return)

lemma subcmd_anib_eq:
  "subcmd_anib env args =
   bind_io (subcmd_anib_fragmented env args) (\<lambda>ctx. raise_io NotImplementedError)"
  by (simp add: subcmd_anib_def)

lemma emits_only_subcmd_anib: "emits_only setup_event (subcmd_anib env args)"
  unfolding subcmd_anib_eq
  by (intro emits_only_bind emits_only_fragmented emits_only_raise)

subsection \<open>Runs in the concrete world\<close>

lemma demo_fragment_records_g1:
  "fragment_records [demo_record ''c1'' ''ACGTACG''] 3 (0, [], []) =
   Some (3,
     [\<lparr>id_r = ''frag00001'', description_r = ''c1'', seq_r = ''ACG''\<rparr>,
      \<lparr>id_r = ''frag00002'', description_r = ''c1'', seq_r = ''TAC''\<rparr>,
      \<lparr>id_r = ''frag00003'', description_r = ''c1'', seq_r = ''G''\<rparr>],
     [(''frag00001'', 3), (''frag00002'', 3), (''frag00003'', 1)])"
  by code_simp

lemma demo_fragment_records_g2:
  "fragment_records [demo_record ''c1'' ''ACGT''] 3 (0, [], []) =
   Some (2,
     [\<lparr>id_r = ''frag00001'', description_r = ''c1'', seq_r = ''ACG''\<rparr>,
      \<lparr>id_r = ''frag00002'', description_r = ''c1'', seq_r = ''T''\<rparr>],
     [(''frag00001'', 3), (''frag00002'', 1)])"
  by code_simp

lemma demo_json_lengths:
  "length (demo_json [(''frag00001'', 3), (''frag00002'', 3), (''frag00003'', Suc 0)]) = 48"
  "length (demo_json [(''frag00001'', 3), (''frag00002'', Suc 0)]) = 32"
  by (simp_all add: demo_json_def str_nat_small digit_char_def)

lemma demo_fragmented:
  "subcmd_anib_fragmented (demo_env (demo_knobs0\<lparr>all_in_database := b\<rparr>)) demo_args
     (demo_state demo_genomes)
   = Some (Inr (''2.9.0+'', 0, 0, [''g1'', ''g2''], ''out/fragments''),
       \<lparr>world = \<lparr>genome_files = demo_genomes,
                  written = [(''out/fragments/g1-fragments.fasta'',
                    [\<lparr>id_r = ''frag00001'', description_r = ''c1'', seq_r = ''ACG''\<rparr>,
                     \<lparr>id_r = ''frag00002'', description_r = ''c1'', seq_r = ''TAC''\<rparr>,
                     \<lparr>id_r = ''frag00003'', description_r = ''c1'', seq_r = ''G''\<rparr>]),
                    (''out/fragments/g2-fragments.fasta'',
                    [\<lparr>id_r = ''frag00001'', description_r = ''c1'', seq_r = ''ACG''\<rparr>,
                     \<lparr>id_r = ''frag00002'', description_r = ''c1'', seq_r = ''T''\<rparr>])],
                  runs = [(''ANIb_2019-01-01T00:00:00'', ''started'')],
                  matrices_updates = 0\<rparr>,
        trace = [Ev_get_version ''blastn'', Ev_now, Ev_get_session ''db'',
                 Ev_add_run ''ANIb'' ''pyani anib'' ''started'' ''ANIb_2019-01-01T00:00:00'',
                 Ev_add_run_genomes ''in'', Ev_genomes_all, Ev_makedirs ''out'',
                 Ev_makedirs ''out/fragments'', Ev_makedirs ''out/blastdbs'',
                 Ev_parse ''g1'',
                 Ev_write
                   [\<lparr>id_r = ''frag00001'', description_r = ''c1'', seq_r = ''ACG''\<rparr>,
                    \<lparr>id_r = ''frag00002'', description_r = ''c1'', seq_r = ''TAC''\<rparr>,
                    \<lparr>id_r = ''frag00003'', description_r = ''c1'', seq_r = ''G''\<rparr>]
                   ''out/fragments/g1-fragments.fasta'',
                 Ev_print ''out/fragments/g1-fragments.fasta'' 48,
                 Ev_parse ''g2'',
                 Ev_write
                   [\<lparr>id_r = ''frag00001'', description_r = ''c1'', seq_r = ''ACG''\<rparr>,
                    \<lparr>id_r = ''frag00002'', description_r = ''c1'', seq_r = ''T''\<rparr>]
                   ''out/fragments/g2-fragments.fasta'',
                 Ev_print ''out/fragments/g2-fragments.fasta'' 32]\<rparr>)"
  by (simp add: subcmd_anib_fragmented_def subcmd_anib_setup_def fragment_fasta_file_def
      demo_fragment_records_g1 demo_fragment_records_g2 demo_json_lengths
      bind_io_def call_def try_except_def raise_io_def return_io_def Let_def
      demo_env_def demo_knobs0_def demo_args_def demo_state_def run_name_def demo_write_def
      demo_genomes_def
      del: fragment_records.simps)

subsection \<open>write_run_heatmaps: retrieval and rendering\<close>





subsection \<open>Events emitted up to the first exception\<close>












section \<open>The claims\<close>

text \<open>
  C9. \<^verbatim>\<open>fragment_fasta_file\<close> returns (with a value or an exception of a collaborator)
  for every genome file when \<open>fragsize \<ge> 1\<close>; when \<open>fragsize \<le> 0\<close> and the parser
  yields a record with at least one letter, it does not return.
\<close>

theorem fragment_fasta_file_terminates_iff_positive:
  "(1 \<le> fragsize \<longrightarrow>
      (\<exists>r s'. fragment_fasta_file env inpath outdir fragsize s = Some (r, s')))
   \<and> (fragsize \<le> 0 \<and> (\<exists>rec\<in>set (fst (SeqIO_parse env inpath (world s))). seq_r rec \<noteq> [])
        \<longrightarrow> fragment_fasta_file env inpath outdir fragsize s = None)"
proof (intro conjI impI)
  obtain recs err where p: "SeqIO_parse env inpath (world s) = (recs, err)"
    by (cases "SeqIO_parse env inpath (world s)")
  {
    assume "1 \<le> fragsize"
    then have f: "0 < nat fragsize" and e: "int (nat fragsize) = fragsize" by simp_all
    from fragment_records_result[OF f, of recs] obtain news where
      "fragment_records recs fragsize (0, [], []) =
         Some (length news, news, map (\<lambda>r. (id_r r, length (seq_r r))) news)"
      unfolding e by blast
    then show "\<exists>r s'. fragment_fasta_file env inpath outdir fragsize s = Some (r, s')"
      unfolding fragment_fasta_file_unfold[OF p] by (cases err) simp_all
  }
  {
    assume "fragsize \<le> 0 \<and> (\<exists>rec\<in>set (fst (SeqIO_parse env inpath (world s))). seq_r rec \<noteq> [])"
    then have "fragsize \<le> 0" and "\<exists>rec\<in>set recs. seq_r rec \<noteq> []" using p by simp_all
    then have "fragment_records recs fragsize (0, [], []) = None"
      by (rule fragment_records_diverges)
    then show "fragment_fasta_file env inpath outdir fragsize s = None"
      unfolding fragment_fasta_file_unfold[OF p] by simp
  }
qed

theorem fragment_fasta_file_terminates_iff_positive_witness:
  "(\<exists>r s'. fragment_fasta_file (demo_env demo_knobs0) ''g1'' ''out/fragments'' 3
              (demo_state [(''g1'', [demo_record ''c1'' ''ACGTACG'', demo_record ''c2'' ''AC''])])
            = Some (r, s'))
   \<and> fragment_fasta_file (demo_env demo_knobs0) ''g1'' ''out/fragments'' 0
        (demo_state [(''g1'', [demo_record ''c1'' ''ACGTACG'', demo_record ''c2'' ''AC''])]) = None"
  using fragment_fasta_file_terminates_iff_positive
      [where fragsize = 3 and env = "demo_env demo_knobs0" and inpath = "''g1''"
         and outdir = "''out/fragments''"
         and s = "demo_state [(''g1'', [demo_record ''c1'' ''ACGTACG'', demo_record ''c2'' ''AC''])]"]
    fragment_fasta_file_terminates_iff_positive
      [where fragsize = 0 and env = "demo_env demo_knobs0" and inpath = "''g1''"
         and outdir = "''out/fragments''"
         and s = "demo_state [(''g1'', [demo_record ''c1'' ''ACGTACG'', demo_record ''c2'' ''AC''])]"]
  by (simp add: demo_env_def demo_state_def demo_record_def)

text \<open>
  C1. For \<open>fragsize \<ge> 1\<close> and a genome file whose records parse, the fragments handed
  to \<^verbatim>\<open>SeqIO.write\<close> are, record by record in file order, \<open>\<lceil>L / fragsize\<rceil>\<close> pieces
  that put together give the record again; every piece but the last of a record has
  \<open>fragsize\<close> letters and the last has the letters that remain. \<^verbatim>\<open>sizedict\<close>, whose
  JSON text is returned, has one entry for each fragment, under its id and with its
  length, and its lengths add up to the total length of the records.
\<close>

theorem fragment_fasta_file_fragments:
  assumes "1 \<le> fragsize" and "SeqIO_parse env inpath (world s) = (recs, None)"
  shows "\<exists>outseqs sizedict fragss s'.
     fragment_fasta_file env inpath outdir fragsize s =
       Some (case fst (SeqIO_write env outseqs
                          (joinpath env outdir (stem env inpath @ ''-fragments.fasta''))
                          (world s)) of
               Inl e \<Rightarrow> Inl e
             | Inr u \<Rightarrow> Inr (joinpath env outdir (stem env inpath @ ''-fragments.fasta''),
                           json_dumps env sizedict),
             s')
     \<and> trace s' = trace s @ [Ev_parse inpath,
          Ev_write outseqs (joinpath env outdir (stem env inpath @ ''-fragments.fasta''))]
     \<and> length fragss = length recs
     \<and> map seq_r outseqs = concat fragss
     \<and> (\<forall>i<length recs.
           length (fragss ! i) = (length (seq_r (recs ! i)) + nat fragsize - 1) div nat fragsize
         \<and> concat (fragss ! i) = seq_r (recs ! i)
         \<and> (\<forall>k<length (fragss ! i).
               length (fragss ! i ! k) =
                 (if Suc k < length (fragss ! i) then nat fragsize
                  else length (seq_r (recs ! i)) - (length (fragss ! i) - 1) * nat fragsize)))
     \<and> map fst sizedict = map id_r outseqs
     \<and> distinct (map fst sizedict)
     \<and> map snd sizedict = map (\<lambda>r. length (seq_r r)) outseqs
     \<and> sum_list (map snd sizedict) = sum_list (map (\<lambda>r. length (seq_r r)) recs)"
proof -
  define f where "f = nat fragsize"
  have f: "0 < f" and e: "int f = fragsize" using assms(1) by (simp_all add: f_def)
  from fragment_records_result[OF f, of recs] obtain news where
    run: "fragment_records recs fragsize (0, [], []) =
            Some (length news, news, map (\<lambda>r. (id_r r, length (seq_r r))) news)"
    and ids: "map id_r news = map frag_id [1..<Suc (length news)]"
    and seqs: "map seq_r news = concat (map (\<lambda>r. chunks f (seq_r r)) recs)"
    unfolding e by blast
  define sizedict where "sizedict = map (\<lambda>r. (id_r r, length (seq_r r))) news"
  define fragss where "fragss = map (\<lambda>r. chunks f (seq_r r)) recs"
  define fragpath where "fragpath = joinpath env outdir (stem env inpath @ ''-fragments.fasta'')"
  define s' where "s' = \<lparr>world = snd (SeqIO_write env news fragpath (world s)),
                          trace = trace s @ [Ev_parse inpath, Ev_write news fragpath]\<rparr>"
  have r: "fragment_fasta_file env inpath outdir fragsize s =
       Some (case fst (SeqIO_write env news fragpath (world s)) of
               Inl e \<Rightarrow> Inl e
             | Inr u \<Rightarrow> Inr (fragpath, json_dumps env sizedict), s')"
    unfolding fragment_fasta_file_unfold[OF assms(2)] run sizedict_def fragpath_def s'_def
    by simp
  have t: "trace s' = trace s @ [Ev_parse inpath, Ev_write news fragpath]"
    by (simp add: s'_def)
  have l: "length fragss = length recs" by (simp add: fragss_def)
  have c: "map seq_r news = concat fragss" using seqs by (simp add: fragss_def)
  have per: "\<forall>i<length recs.
           length (fragss ! i) = (length (seq_r (recs ! i)) + f - 1) div f
         \<and> concat (fragss ! i) = seq_r (recs ! i)
         \<and> (\<forall>k<length (fragss ! i).
               length (fragss ! i ! k) =
                 (if Suc k < length (fragss ! i) then f
                  else length (seq_r (recs ! i)) - (length (fragss ! i) - 1) * f))"
  proof (intro allI impI conjI)
    fix i assume i: "i < length recs"
    then have n: "fragss ! i = chunks f (seq_r (recs ! i))" by (simp add: fragss_def)
    show "length (fragss ! i) = (length (seq_r (recs ! i)) + f - 1) div f"
      unfolding n by (rule chunks_length)
    show "concat (fragss ! i) = seq_r (recs ! i)"
      unfolding n by (rule concat_chunks[OF f])
    fix k assume "k < length (fragss ! i)"
    then show "length (fragss ! i ! k) =
                 (if Suc k < length (fragss ! i) then f
                  else length (seq_r (recs ! i)) - (length (fragss ! i) - 1) * f)"
      unfolding n by (rule chunks_nth_length[OF f])
  qed
  have k: "map fst sizedict = map id_r news" by (simp add: sizedict_def comp_def)
  have d: "distinct (map fst sizedict)" unfolding k ids by (rule frag_ids_distinct)
  have v: "map snd sizedict = map (\<lambda>r. length (seq_r r)) news"
    by (simp add: sizedict_def comp_def)
  have "map (\<lambda>r. length (seq_r r)) news = map length (map seq_r news)" by (simp add: comp_def)
  then have "sum_list (map snd sizedict) = sum_list (map length (concat fragss))"
    unfolding v c by simp
  then have sm: "sum_list (map snd sizedict) = sum_list (map (\<lambda>r. length (seq_r r)) recs)"
    unfolding fragss_def by (simp only: sum_chunk_lengths[OF f])
  show ?thesis
    using r t l c per k d v sm unfolding fragpath_def f_def by blast
qed

theorem fragment_fasta_file_fragments_witness:
  "\<exists>sizedict s'.
     fragment_fasta_file (demo_env demo_knobs0) ''g1'' ''out/fragments'' 3
       (demo_state [(''g1'', [demo_record ''c1'' ''ACGTACG'', demo_record ''c2'' ''AC''])])
     = Some (Inr (''out/fragments/g1-fragments.fasta'', json_dumps (demo_env demo_knobs0) sizedict), s')
     \<and> sum_list (map snd sizedict) = 9"
proof -
  have p: "SeqIO_parse (demo_env demo_knobs0) ''g1''
             (world (demo_state [(''g1'', [demo_record ''c1'' ''ACGTACG'', demo_record ''c2'' ''AC''])]))
           = ([demo_record ''c1'' ''ACGTACG'', demo_record ''c2'' ''AC''], None)"
    by (simp add: demo_env_def demo_state_def)
  have "(1::int) \<le> 3" by simp
  from fragment_fasta_file_fragments[OF this p, of "''out/fragments''"]
  show ?thesis
    by (auto simp: demo_env_def demo_write_def demo_knobs0_def demo_record_def)
qed




text \<open>
  C2. For a list of pairwise different genomes, \<^verbatim>\<open>permutations(genomes, 2)\<close> has
  \<open>N * (N - 1)\<close> pairs, no pair twice, no pair of a genome with itself, and every
  ordered pair of two different genomes is among them.
\<close>

theorem comparisons_enumeration:
  assumes "distinct genomes"
  shows "length (permutations2 genomes) = length genomes * (length genomes - 1)
       \<and> distinct (permutations2 genomes)
       \<and> \<not> (\<exists>g. (g, g) \<in> set (permutations2 genomes))
       \<and> set (permutations2 genomes) =
           {(q, r). q \<in> set genomes \<and> r \<in> set genomes \<and> q \<noteq> r}"
proof -
  have s: "set (permutations2 genomes) =
           {(q, r). q \<in> set genomes \<and> r \<in> set genomes \<and> q \<noteq> r}"
    using assms by (rule permutations2_set)
  then have "\<not> (\<exists>g. (g, g) \<in> set (permutations2 genomes))" by simp
  then show ?thesis
    using s permutations2_length[of genomes] permutations2_distinct[OF assms] by simp
qed

theorem comparisons_enumeration_witness:
  "length (permutations2 [''g1'', ''g2'', ''g3'']) = 6
   \<and> distinct (permutations2 [''g1'', ''g2'', ''g3''])
   \<and> (''g1'', ''g1'') \<notin> set (permutations2 [''g1'', ''g2'', ''g3''])"
  using comparisons_enumeration[of "[''g1'', ''g2'', ''g3'']"] by simp

text \<open>
  C7. When the session cannot be opened (\<^verbatim>\<open>get_session\<close> raises an \<^verbatim>\<open>Exception\<close>),
  \<^verbatim>\<open>subcmd_anib\<close> raises \<^verbatim>\<open>SystemExit(1)\<close> at once: the last call made is
  \<^verbatim>\<open>get_session\<close>, no run is added and nothing is read from the store. When the output
  directory cannot be made (\<^verbatim>\<open>os.makedirs\<close> raises \<^verbatim>\<open>OSError\<close>), it raises
  \<^verbatim>\<open>SystemError(1)\<close> at once: the last call made is that \<^verbatim>\<open>makedirs\<close>. Both end the
  process with status 1, before any fragment file or comparison.
\<close>

theorem subcmd_anib_setup_failures:
  "(get_version env (args_blastn_exe args) (world s) = (Inr v, w1)
    \<and> datetime_now_isoformat env w1 = (Inr t, w2)
    \<and> get_session env (args_dbpath args) w2 = (Inl e, w3) \<and> is_Exception e
    \<longrightarrow> subcmd_anib env args s =
          Some (Inl (SystemExit 1),
                \<lparr>world = w3,
                 trace = trace s @ [Ev_get_version (args_blastn_exe args), Ev_now,
                                    Ev_get_session (args_dbpath args)]\<rparr>)
        \<and> exit_status (Inl (SystemExit 1) :: exn + unit) = 1)
   \<and> (get_version env (args_blastn_exe args) (world s) = (Inr v, w1)
    \<and> datetime_now_isoformat env w1 = (Inr t, w2)
    \<and> get_session env (args_dbpath args) w2 = (Inr session, w3)
    \<and> add_run env session ''ANIb'' (args_cmdline args) t ''started'' (run_name args t) w3
        = (Inr run, w4)
    \<and> add_run_genomes env session run (args_indir args) (args_classes args) (args_labels args) w4
        = (Inr ids, w5)
    \<and> run_genomes_all env run w5 = (Inr genomes, w6)
    \<and> makedirs env (args_outdir args) w6 = (Inl OSError, w7)
    \<longrightarrow> subcmd_anib env args s =
          Some (Inl (SystemError 1),
                \<lparr>world = w7,
                 trace = trace s @ [Ev_get_version (args_blastn_exe args), Ev_now,
                                    Ev_get_session (args_dbpath args),
                                    Ev_add_run ''ANIb'' (args_cmdline args) ''started''
                                      (run_name args t),
                                    Ev_add_run_genomes (args_indir args), Ev_genomes_all,
                                    Ev_makedirs (args_outdir args)]\<rparr>)
        \<and> exit_status (Inl (SystemError 1) :: exn + unit) = 1)"
  by (simp add: subcmd_anib_def subcmd_anib_fragmented_def subcmd_anib_setup_def
      bind_io_def call_def try_except_def raise_io_def return_io_def Let_def exit_status_def)

theorem subcmd_anib_setup_failures_witness:
  "subcmd_anib (demo_env (demo_knobs0\<lparr>session_fails := Some (OtherException ''OperationalError'')\<rparr>))
     demo_args (demo_state [(''g1'', [demo_record ''c1'' ''ACGTACG''])])
   = Some (Inl (SystemExit 1),
           \<lparr>world = \<lparr>genome_files = [(''g1'', [demo_record ''c1'' ''ACGTACG''])], written = [],
                      runs = [], matrices_updates = 0\<rparr>,
            trace = [Ev_get_version ''blastn'', Ev_now, Ev_get_session ''db'']\<rparr>)
   \<and> subcmd_anib (demo_env (demo_knobs0\<lparr>makedirs_fails := (\<lambda>p. if p = ''out'' then Some OSError else None)\<rparr>))
     demo_args (demo_state [(''g1'', [demo_record ''c1'' ''ACGTACG''])])
   = Some (Inl (SystemError 1),
           \<lparr>world = \<lparr>genome_files = [(''g1'', [demo_record ''c1'' ''ACGTACG''])], written = [],
                      runs = [(''ANIb_2019-01-01T00:00:00'', ''started'')],
                      matrices_updates = 0\<rparr>,
            trace = [Ev_get_version ''blastn'', Ev_now, Ev_get_session ''db'',
                     Ev_add_run ''ANIb'' ''pyani anib'' ''started'' ''ANIb_2019-01-01T00:00:00'',
                     Ev_add_run_genomes ''in'', Ev_genomes_all, Ev_makedirs ''out'']\<rparr>)"
proof -
  let ?w = "\<lparr>genome_files = [(''g1'', [demo_record ''c1'' ''ACGTACG''])], written = [],
             runs = [], matrices_updates = 0\<rparr>"
  let ?w' = "\<lparr>genome_files = [(''g1'', [demo_record ''c1'' ''ACGTACG''])], written = [],
              runs = [(''ANIb_2019-01-01T00:00:00'', ''started'')], matrices_updates = 0\<rparr>"
  have a: "subcmd_anib (demo_env (demo_knobs0\<lparr>session_fails := Some (OtherException ''OperationalError'')\<rparr>))
     demo_args (demo_state [(''g1'', [demo_record ''c1'' ''ACGTACG''])])
   = Some (Inl (SystemExit 1),
           \<lparr>world = ?w, trace = [Ev_get_version ''blastn'', Ev_now, Ev_get_session ''db'']\<rparr>)"
    using subcmd_anib_setup_failures
      [where env = "demo_env (demo_knobs0\<lparr>session_fails := Some (OtherException ''OperationalError'')\<rparr>)"
         and args = demo_args and s = "demo_state [(''g1'', [demo_record ''c1'' ''ACGTACG''])]"
         and v = "''2.9.0+''" and ?w1.0 = ?w and t = "''2019-01-01T00:00:00''" and ?w2.0 = ?w
         and e = "OtherException ''OperationalError''" and ?w3.0 = ?w]
    by (simp add: demo_env_def demo_knobs0_def demo_args_def demo_state_def)
  have b: "subcmd_anib (demo_env (demo_knobs0\<lparr>makedirs_fails := (\<lambda>p. if p = ''out'' then Some OSError else None)\<rparr>))
     demo_args (demo_state [(''g1'', [demo_record ''c1'' ''ACGTACG''])])
   = Some (Inl (SystemError 1),
           \<lparr>world = ?w',
            trace = [Ev_get_version ''blastn'', Ev_now, Ev_get_session ''db'',
                     Ev_add_run ''ANIb'' ''pyani anib'' ''started'' ''ANIb_2019-01-01T00:00:00'',
                     Ev_add_run_genomes ''in'', Ev_genomes_all, Ev_makedirs ''out'']\<rparr>)"
    using subcmd_anib_setup_failures
      [where env = "demo_env (demo_knobs0\<lparr>makedirs_fails := (\<lambda>p. if p = ''out'' then Some OSError else None)\<rparr>)"
         and args = demo_args and s = "demo_state [(''g1'', [demo_record ''c1'' ''ACGTACG''])]"
         and v = "''2.9.0+''" and ?w1.0 = ?w and t = "''2019-01-01T00:00:00''" and ?w2.0 = ?w
         and session = 0 and ?w3.0 = ?w and run = 0 and ?w4.0 = ?w' and ids = "[0]"
         and ?w5.0 = ?w' and genomes = "[''g1'']" and ?w6.0 = ?w' and ?w7.0 = ?w']
    by (simp add: demo_env_def demo_knobs0_def demo_args_def demo_state_def run_name_def)
  show ?thesis using a b by simp
qed


text \<open>
  C4. When the setup and the loop over the genomes complete, \<^verbatim>\<open>subcmd_anib\<close> raises
  \<^verbatim>\<open>NotImplementedError\<close> in the state the loop left: nothing of lines 175 to 238 is
  run. Whatever happens, \<^verbatim>\<open>subcmd_anib\<close> ends with an exception if it ends at all, and
  the calls it has made are those of the setup and of the fragmenter: a run is added
  with status \<^verbatim>\<open>started\<close> and never touched again, and no comparison is filtered, no
  output collected, no job list built, no matrix updated.
\<close>

theorem subcmd_anib_raises_before_comparisons:
  "(\<forall>ctx s'. subcmd_anib_fragmented env args s = Some (Inr ctx, s')
        \<longrightarrow> subcmd_anib env args s = Some (Inl NotImplementedError, s'))
   \<and> (\<forall>r s'. subcmd_anib env args s = Some (r, s')
        \<longrightarrow> (\<exists>e. r = Inl e)
          \<and> (\<exists>evs. trace s' = trace s @ evs \<and> list_all setup_event evs))"
proof (intro conjI allI impI)
  fix ctx s' assume "subcmd_anib_fragmented env args s = Some (Inr ctx, s')"
  then show "subcmd_anib env args s = Some (Inl NotImplementedError, s')"
    unfolding subcmd_anib_eq by (simp add: bind_io_def raise_io_def)
next
  fix r s' assume a: "subcmd_anib env args s = Some (r, s')"
  then show "\<exists>e. r = Inl e"
    unfolding subcmd_anib_eq
    by (auto simp: bind_io_def raise_io_def split: option.splits sum.splits)
  from a emits_only_subcmd_anib[of env args]
  show "\<exists>evs. trace s' = trace s @ evs \<and> list_all setup_event evs"
    unfolding emits_only_def by blast
qed

theorem subcmd_anib_raises_before_comparisons_witness:
  "\<exists>s'. subcmd_anib (demo_env (demo_knobs0\<lparr>all_in_database := False\<rparr>)) demo_args
            (demo_state demo_genomes) = Some (Inl NotImplementedError, s')
        \<and> runs (world s') = [(''ANIb_2019-01-01T00:00:00'', ''started'')]
        \<and> length (trace s') = 15"
  using subcmd_anib_raises_before_comparisons
    [where env = "demo_env (demo_knobs0\<lparr>all_in_database := False\<rparr>)" and args = demo_args
       and s = "demo_state demo_genomes"]
  by (simp add: demo_fragmented)

text \<open>
  C3 fails on the code: in a world where the filter leaves nothing to run (every
  comparison of the two genomes is in the database), \<^verbatim>\<open>subcmd_anib\<close> still ends with
  \<^verbatim>\<open>NotImplementedError\<close>, and the summary matrices are not updated.
\<close>

theorem subcmd_anib_existing_results_counterexample:
  "\<exists>s'. subcmd_anib (demo_env (demo_knobs0\<lparr>all_in_database := True\<rparr>)) demo_args
            (demo_state demo_genomes) = Some (Inl NotImplementedError, s')
        \<and> fst (filter_existing_comparisons (demo_env (demo_knobs0\<lparr>all_in_database := True\<rparr>))
                 0 0 (permutations2 [''g1'', ''g2'']) ''blastn'' ''2.9.0+'' 3 (world s'))
            = Inr []
        \<and> matrices_updates (world s') = 0
        \<and> Ev_update_comparison_matrices \<notin> set (trace s')"
proof -
  have "subcmd_anib (demo_env (demo_knobs0\<lparr>all_in_database := True\<rparr>)) demo_args
          (demo_state demo_genomes)
        = bind_io (subcmd_anib_fragmented (demo_env (demo_knobs0\<lparr>all_in_database := True\<rparr>))
                     demo_args)
            (\<lambda>ctx. raise_io NotImplementedError) (demo_state demo_genomes)"
    by (simp only: subcmd_anib_eq)
  then show ?thesis
    by (simp add: bind_io_def raise_io_def demo_fragmented)
      (simp add: demo_env_def demo_knobs0_def)
qed

text \<open>
  C3, as the code has it. The statements after the \<^verbatim>\<open>raise\<close> of line 173, run on their
  own: when the filter leaves no comparison, they call \<^verbatim>\<open>update_comparison_matrices\<close>
  and end with its outcome; no output is collected, no genome fragmented and no job
  list built. \<^verbatim>\<open>subcmd_anib\<close> itself never calls the filter or the update.
\<close>

theorem subcmd_anib_tail_all_existing:
  "(filter_existing_comparisons env session run (permutations2 genomes) ''blastn''
       blastn_version (args_fragsize args) (world s) = (Inr [], w1)
     \<longrightarrow> subcmd_anib_tail env args (blastn_version, session, run, genomes, fragdir) s =
          Some (fst (update_comparison_matrices env session run w1),
                \<lparr>world = snd (update_comparison_matrices env session run w1),
                 trace = trace s @ [Ev_filter_existing_comparisons
                                      (length (permutations2 genomes)),
                                    Ev_update_comparison_matrices]\<rparr>))
   \<and> (\<forall>r s'. subcmd_anib env args s = Some (r, s')
        \<longrightarrow> (\<exists>evs. trace s' = trace s @ evs
               \<and> Ev_update_comparison_matrices \<notin> set evs
               \<and> (\<forall>n. Ev_filter_existing_comparisons n \<notin> set evs)))"
proof (intro conjI allI impI)
  assume "filter_existing_comparisons env session run (permutations2 genomes) ''blastn''
       blastn_version (args_fragsize args) (world s) = (Inr [], w1)"
  then show "subcmd_anib_tail env args (blastn_version, session, run, genomes, fragdir) s =
          Some (fst (update_comparison_matrices env session run w1),
                \<lparr>world = snd (update_comparison_matrices env session run w1),
                 trace = trace s @ [Ev_filter_existing_comparisons
                                      (length (permutations2 genomes)),
                                    Ev_update_comparison_matrices]\<rparr>)"
    by (simp add: subcmd_anib_tail_def Let_def bind_io_def call_def return_io_def
        split: prod.splits sum.splits)
next
  fix r s' assume "subcmd_anib env args s = Some (r, s')"
  with emits_only_subcmd_anib[of env args] obtain evs where
    e: "trace s' = trace s @ evs" and l: "list_all setup_event evs"
    unfolding emits_only_def by blast
  have "Ev_update_comparison_matrices \<notin> set evs"
    using l by (auto simp: list_all_iff)
  moreover have "\<forall>n. Ev_filter_existing_comparisons n \<notin> set evs"
    using l by (auto simp: list_all_iff)
  ultimately show "\<exists>evs. trace s' = trace s @ evs
               \<and> Ev_update_comparison_matrices \<notin> set evs
               \<and> (\<forall>n. Ev_filter_existing_comparisons n \<notin> set evs)"
    using e by blast
qed

theorem subcmd_anib_tail_all_existing_witness:
  "subcmd_anib_tail (demo_env (demo_knobs0\<lparr>all_in_database := True\<rparr>)) demo_args
     (''2.9.0+'', 0, 0, [''g1'', ''g2''], ''out/fragments'') (demo_state demo_genomes)
   = Some (Inr (),
       \<lparr>world = \<lparr>genome_files = demo_genomes, written = [], runs = [], matrices_updates = 1\<rparr>,
        trace = [Ev_filter_existing_comparisons 2, Ev_update_comparison_matrices]\<rparr>)"
  using subcmd_anib_tail_all_existing
    [where env = "demo_env (demo_knobs0\<lparr>all_in_database := True\<rparr>)" and args = demo_args
       and session = 0 and run = 0 and genomes = "[''g1'', ''g2'']"
       and blastn_version = "''2.9.0+''" and s = "demo_state demo_genomes"
       and fragdir = "''out/fragments''"
       and ?w1.0 = "\<lparr>genome_files = demo_genomes, written = [], runs = [], matrices_updates = 0\<rparr>"]
  by (simp add: demo_env_def demo_knobs0_def demo_args_def demo_state_def permutations2_length)

text \<open>
  C8 fails on the code: \<^verbatim>\<open>SeqIO.write\<close> is given the final path. When it stops with
  \<^verbatim>\<open>OSError\<close> after the first of three fragments, the file at the final path holds
  this one fragment.
\<close>

theorem fragment_fasta_file_partial_file_counterexample:
  "\<exists>s'. fragment_fasta_file (demo_env (demo_knobs0\<lparr>write_stops_after := Some 1\<rparr>))
            ''g1'' ''out/fragments'' 3 (demo_state demo_genomes) = Some (Inl OSError, s')
        \<and> map_of (written (world s')) ''out/fragments/g1-fragments.fasta''
            = Some [\<lparr>id_r = ''frag00001'', description_r = ''c1'', seq_r = ''ACG''\<rparr>]"
  by (simp add: fragment_fasta_file_def demo_fragment_records_g1
      bind_io_def call_def raise_io_def return_io_def Let_def
      demo_env_def demo_knobs0_def demo_state_def demo_write_def demo_genomes_def
      del: fragment_records.simps)

text \<open>
  C8, as the code has it. The fragments are written to the final path itself, with
  no temporary file and no rename. When \<^verbatim>\<open>SeqIO.write\<close> raises, \<^verbatim>\<open>fragment_fasta_file\<close>
  raises the same exception and returns no path; the world is left as the failed
  write left it, whatever it wrote at the final path included. The loop of
  \<^verbatim>\<open>subcmd_anib\<close> that called it stops with this exception: it prints nothing for the
  genome and goes on to no other genome.
\<close>

theorem fragment_fasta_file_write_failure:
  assumes "SeqIO_parse env inpath (world s) = (recs, None)"
    and "fragment_records recs fragsize (0, [], []) = Some (count, outseqs, sizedict)"
    and "SeqIO_write env outseqs (joinpath env outdir (stem env inpath @ ''-fragments.fasta''))
           (world s) = (Inl e, w')"
    and "genome_path env genome = inpath"
  shows "fragment_fasta_file env inpath outdir fragsize s =
           Some (Inl e,
                 \<lparr>world = w',
                  trace = trace s @ [Ev_parse inpath,
                    Ev_write outseqs
                      (joinpath env outdir (stem env inpath @ ''-fragments.fasta''))]\<rparr>)
       \<and> fragment_genomes env outdir fragsize (genome # rest) s =
           Some (Inl e,
                 \<lparr>world = w',
                  trace = trace s @ [Ev_parse inpath,
                    Ev_write outseqs
                      (joinpath env outdir (stem env inpath @ ''-fragments.fasta''))]\<rparr>)"
proof -
  have f: "fragment_fasta_file env inpath outdir fragsize s =
           Some (Inl e,
                 \<lparr>world = w',
                  trace = trace s @ [Ev_parse inpath,
                    Ev_write outseqs
                      (joinpath env outdir (stem env inpath @ ''-fragments.fasta''))]\<rparr>)"
    unfolding fragment_fasta_file_unfold[OF assms(1)] assms(2) by (simp add: assms(3))
  then have "fragment_genomes env outdir fragsize (genome # rest) s =
           Some (Inl e,
                 \<lparr>world = w',
                  trace = trace s @ [Ev_parse inpath,
                    Ev_write outseqs
                      (joinpath env outdir (stem env inpath @ ''-fragments.fasta''))]\<rparr>)"
    by (simp add: assms(4) bind_io_Inl)
  with f show ?thesis by simp
qed

theorem fragment_fasta_file_write_failure_witness:
  "fragment_genomes (demo_env (demo_knobs0\<lparr>write_stops_after := Some 1\<rparr>)) ''out/fragments'' 3
     [''g1'', ''g2''] (demo_state demo_genomes)
   = Some (Inl OSError,
       \<lparr>world = \<lparr>genome_files = demo_genomes,
                  written = [(''out/fragments/g1-fragments.fasta'',
                    [\<lparr>id_r = ''frag00001'', description_r = ''c1'', seq_r = ''ACG''\<rparr>])],
                  runs = [], matrices_updates = 0\<rparr>,
        trace = [Ev_parse ''g1'',
                 Ev_write
                   [\<lparr>id_r = ''frag00001'', description_r = ''c1'', seq_r = ''ACG''\<rparr>,
                    \<lparr>id_r = ''frag00002'', description_r = ''c1'', seq_r = ''TAC''\<rparr>,
                    \<lparr>id_r = ''frag00003'', description_r = ''c1'', seq_r = ''G''\<rparr>]
                   ''out/fragments/g1-fragments.fasta'']\<rparr>)"
proof -
  have p: "SeqIO_parse (demo_env (demo_knobs0\<lparr>write_stops_after := Some 1\<rparr>)) ''g1''
             (world (demo_state demo_genomes)) = ([demo_record ''c1'' ''ACGTACG''], None)"
    by (simp add: demo_env_def demo_state_def demo_genomes_def)
  have w: "SeqIO_write (demo_env (demo_knobs0\<lparr>write_stops_after := Some 1\<rparr>))
             [\<lparr>id_r = ''frag00001'', description_r = ''c1'', seq_r = ''ACG''\<rparr>,
              \<lparr>id_r = ''frag00002'', description_r = ''c1'', seq_r = ''TAC''\<rparr>,
              \<lparr>id_r = ''frag00003'', description_r = ''c1'', seq_r = ''G''\<rparr>]
             (joinpath (demo_env (demo_knobs0\<lparr>write_stops_after := Some 1\<rparr>)) ''out/fragments''
                (stem (demo_env (demo_knobs0\<lparr>write_stops_after := Some 1\<rparr>)) ''g1''
                 @ ''-fragments.fasta''))
             (world (demo_state demo_genomes))
           = (Inl OSError,
              \<lparr>genome_files = demo_genomes,
               written = [(''out/fragments/g1-fragments.fasta'',
                 [\<lparr>id_r = ''frag00001'', description_r = ''c1'', seq_r = ''ACG''\<rparr>])],
               runs = [], matrices_updates = 0\<rparr>)"
    by (simp add: demo_env_def demo_knobs0_def demo_state_def demo_write_def)
  have g: "genome_path (demo_env (demo_knobs0\<lparr>write_stops_after := Some 1\<rparr>)) ''g1'' = ''g1''"
    by (simp add: demo_env_def)
  from fragment_fasta_file_write_failure[OF p demo_fragment_records_g1 w g, of "[''g2'']"]
  show ?thesis by (simp add: demo_env_def demo_state_def)
qed



end
